theory Spec2Isabelle
  imports Complex_Main "HOL-Library.Word"
begin

section \<open>Common types\<close>

text \<open>
  The C++ sources use \<^verbatim>\<open>unsigned int\<close> for dimensions, type ids and launch
  parameters; it is modelled as a 32-bit word, so that \<open>+\<close> and \<open>*\<close> wrap around as
  they do in the program. A \<^verbatim>\<open>throw std::runtime_error(msg)\<close> is the value
  \<open>Inl (RuntimeError msg)\<close>. Two kinds of undefined behaviour the sources can reach are
  errors of their own: calling a member through a NULL \<^verbatim>\<open>shared_ptr\<close> and an
  unsigned remainder by zero.
\<close>

type_synonym u32 = "32 word"
type_synonym u64 = "64 word"

datatype error =
    RuntimeError string
  | NullPointerDereference
  | DivisionByZero
  | ConfigurationError string
  | FatalProgrammingError string
  | DeviceExecutionError

section \<open>SystemDefinition (SystemDefinition.cc)\<close>

text \<open>
  Of \<^verbatim>\<open>ParticleData\<close> only the messenger reached through
  \<^verbatim>\<open>getExecConf()->msg->error()\<close> matters here: the lines written to it.
  \<open>m_particle_data\<close> is a \<^verbatim>\<open>shared_ptr\<close>; \<open>None\<close> is the NULL pointer.
\<close>

record ParticleData =
  pd_error_log :: "string list"

record SystemDefinition =
  m_n_dimensions :: u32
  m_particle_data :: "ParticleData option"

text \<open>
  The default constructor has an empty body: every shared pointer is NULL (its
  \<^verbatim>\<open>\post\<close> comment) and \<open>m_n_dimensions\<close> keeps whatever the memory held,
  the parameter \<open>garbage\<close>.
\<close>

definition SystemDefinition_default :: "u32 \<Rightarrow> SystemDefinition" where
  "SystemDefinition_default garbage =
     \<lparr> m_n_dimensions = garbage, m_particle_data = None \<rparr>"

text \<open>
  \<^verbatim>\<open>setNDimensions\<close>: the check, the error message written through
  \<open>m_particle_data\<close>, the throw, and the store. The second component is the object
  after the call.
\<close>

definition setNDimensions :: "SystemDefinition \<Rightarrow> u32 \<Rightarrow> (error + unit) \<times> SystemDefinition" where
  "setNDimensions sd n_dimensions =
     (if \<not> (n_dimensions = 2 \<or> n_dimensions = 3) then
        (case m_particle_data sd of
           None \<Rightarrow> (Inl NullPointerDereference, sd)
         | Some pd \<Rightarrow>
             (Inl (RuntimeError ''Error setting dimensions''),
              sd\<lparr> m_particle_data :=
                    Some (pd\<lparr> pd_error_log :=
                       pd_error_log pd @ [''hoomd supports only 2D or 3D simulations''] \<rparr>) \<rparr>))
      else (Inr (), sd\<lparr> m_n_dimensions := n_dimensions \<rparr>))"

text \<open>
  The constructor from a snapshot calls \<^verbatim>\<open>setNDimensions(snapshot->dimensions)\<close>
  first, on the object whose members are still default-initialised, and only then creates
  the particle data (\<open>new_pd\<close>, built from the snapshot by code outside these sources).
\<close>

definition SystemDefinition_from_snapshot ::
  "u32 \<Rightarrow> u32 \<Rightarrow> ParticleData \<Rightarrow> error + SystemDefinition" where
  "SystemDefinition_from_snapshot garbage snapshot_dimensions new_pd =
     (case setNDimensions (SystemDefinition_default garbage) snapshot_dimensions of
        (Inl e, _) \<Rightarrow> Inl e
      | (Inr _, sd) \<Rightarrow> Inr (sd\<lparr> m_particle_data := Some new_pd \<rparr>))"

section \<open>Autotuner (hoomd/Autotuner.h is not among the sources)\<close>

text \<open>
  Modelled from the spec: the class \<^verbatim>\<open>Autotuner\<close> is used by both GPU classes below
  but its code is missing. The record holds what the spec lists for an AutotuningState:
  the ordered candidate list, the required sample count, the rescan period, the kernel
  name, the cross-process flag, the state, the current probe index, one sample
  accumulator per candidate, the steps counted since the lock, and whether a
  \<^verbatim>\<open>begin()\<close> is waiting for its \<^verbatim>\<open>end()\<close>. A single process is modelled,
  so the collective reduction at the lock is the identity. Durations are rationals.
\<close>

datatype tuner_state = Scanning | Locked

record Autotuner =
  at_candidates :: "u32 list"
  at_nsamples :: nat
  at_period :: nat
  at_name :: string
  at_sync :: bool
  at_state :: tuner_state
  at_index :: nat
  at_samples :: "rat list list"
  at_calls :: nat
  at_in_bracket :: bool

text \<open>
  Modelled from the spec: \<^verbatim>\<open>construct(candidates, samples_per_candidate,
  rescan_period, name, sync_across_ranks)\<close> fails with a ConfigurationError if the
  candidate list is empty, and otherwise starts Scanning at the first candidate.
\<close>

definition Autotuner_construct ::
  "u32 list \<Rightarrow> nat \<Rightarrow> nat \<Rightarrow> string \<Rightarrow> bool \<Rightarrow> error + Autotuner" where
  "Autotuner_construct candidates samples_per_candidate rescan_period name sync_across_ranks =
     (if candidates = [] then Inl (ConfigurationError ''empty candidate domain'')
      else Inr \<lparr> at_candidates = candidates,
                 at_nsamples = samples_per_candidate,
                 at_period = rescan_period,
                 at_name = name,
                 at_sync = sync_across_ranks,
                 at_state = Scanning,
                 at_index = 0,
                 at_samples = replicate (length candidates) [],
                 at_calls = 0,
                 at_in_bracket = False \<rparr>)"

text \<open>Modelled from the spec: \<^verbatim>\<open>setSync\<close> stores the cross-process flag.\<close>

definition setSync :: "Autotuner \<Rightarrow> bool \<Rightarrow> Autotuner" where
  "setSync t sync = t\<lparr> at_sync := sync \<rparr>"

text \<open>Modelled from the spec: the mean of the recorded durations of one candidate.\<close>

definition mean :: "rat list \<Rightarrow> rat" where
  "mean xs = sum_list xs / of_nat (length xs)"

text \<open>
  Modelled from the spec: the choice at the lock, one pass over the candidates paired
  with their means; a later candidate replaces the best one so far if its mean is
  smaller, or equal with a smaller encoded key.
\<close>

fun pick_best :: "u32 \<times> rat \<Rightarrow> (u32 \<times> rat) list \<Rightarrow> u32 \<times> rat" where
  "pick_best b [] = b"
| "pick_best b (c # cs) =
     pick_best (if snd c < snd b \<or> (snd c = snd b \<and> fst c < fst b) then c else b) cs"

text \<open>Modelled from the spec: the arg-min-mean candidate, ties to the smaller key.\<close>

definition arg_min_mean :: "u32 list \<Rightarrow> rat list list \<Rightarrow> u32" where
  "arg_min_mean candidates samples =
     (case zip candidates (map mean samples) of
        [] \<Rightarrow> 0
      | p # ps \<Rightarrow> fst (pick_best p ps))"

text \<open>
  Modelled from the spec: \<^verbatim>\<open>getParam()\<close> returns the candidate being probed while
  Scanning and the arg-min-mean candidate while Locked.
\<close>

definition getParam :: "Autotuner \<Rightarrow> u32" where
  "getParam t =
     (case at_state t of
        Scanning \<Rightarrow> at_candidates t ! at_index t
      | Locked \<Rightarrow> arg_min_mean (at_candidates t) (at_samples t))"

text \<open>
  Modelled from the spec: \<^verbatim>\<open>begin()\<close> opens the bracket of one timed launch; a
  second \<^verbatim>\<open>begin()\<close> before the \<^verbatim>\<open>end()\<close> is the fatal programming error.
\<close>

definition tuner_begin :: "Autotuner \<Rightarrow> error + Autotuner" where
  "tuner_begin t =
     (if at_in_bracket t
      then Inl (FatalProgrammingError ''begin() inside a begin()/end() bracket'')
      else Inr (t\<lparr> at_in_bracket := True \<rparr>))"

text \<open>
  Modelled from the spec: while Scanning, \<^verbatim>\<open>end()\<close> adds the duration to the
  current candidate; once it has the required number of samples the next candidate is
  probed, and after the last one the tuner locks and starts counting steps.
\<close>

definition record_sample :: "Autotuner \<Rightarrow> rat \<Rightarrow> Autotuner" where
  "record_sample t d =
     (let i = at_index t;
          samples = (at_samples t)[i := at_samples t ! i @ [d]] in
      if length (samples ! i) < at_nsamples t then t\<lparr> at_samples := samples \<rparr>
      else if i + 1 < length (at_candidates t)
        then t\<lparr> at_samples := samples, at_index := i + 1 \<rparr>
        else t\<lparr> at_samples := samples, at_state := Locked, at_calls := 0 \<rparr>)"

text \<open>
  Modelled from the spec: while Locked, \<^verbatim>\<open>end()\<close> counts the step; once
  \<open>rescan_period\<close> steps have elapsed all samples are cleared and the scan restarts.
\<close>

definition count_step :: "Autotuner \<Rightarrow> Autotuner" where
  "count_step t =
     (if at_calls t + 1 < at_period t then t\<lparr> at_calls := at_calls t + 1 \<rparr>
      else t\<lparr> at_state := Scanning, at_index := 0,
               at_samples := replicate (length (at_candidates t)) [], at_calls := 0 \<rparr>)"

text \<open>
  Modelled from the spec: \<^verbatim>\<open>end()\<close> closes the bracket and takes the measured
  duration; without an open bracket it is the fatal programming error.
\<close>

definition tuner_end :: "Autotuner \<Rightarrow> rat \<Rightarrow> error + Autotuner" where
  "tuner_end t d =
     (if \<not> at_in_bracket t then Inl (FatalProgrammingError ''end() without begin()'')
      else Inr ((case at_state t of
                   Scanning \<Rightarrow> record_sample t d
                 | Locked \<Rightarrow> count_step t) \<lparr> at_in_bracket := False \<rparr>))"

text \<open>
  A sequence of timed launches: each is \<^verbatim>\<open>begin()\<close>, \<^verbatim>\<open>getParam()\<close>, the
  launch with its measured duration, \<^verbatim>\<open>end()\<close>. The result lists the parameters
  \<^verbatim>\<open>getParam()\<close> returned, in order, and the tuner afterwards.
\<close>

fun run_pairs :: "Autotuner \<Rightarrow> rat list \<Rightarrow> error + (u32 list \<times> Autotuner)" where
  "run_pairs t [] = Inr ([], t)"
| "run_pairs t (d # ds) =
     (case tuner_begin t of
        Inl e \<Rightarrow> Inl e
      | Inr t1 \<Rightarrow>
          (case tuner_end t1 d of
             Inl e \<Rightarrow> Inl e
           | Inr t2 \<Rightarrow>
               (case run_pairs t2 ds of
                  Inl e \<Rightarrow> Inl e
                | Inr (ps, t3) \<Rightarrow> Inr (getParam t1 # ps, t3))))"

section \<open>PotentialPairDPDThermoGPU (hoomd/md/PotentialPairDPDThermoGPU.h)\<close>

subsection \<open>The candidate launch parameters\<close>

text \<open>
  The constructor's loop
  \<^verbatim>\<open>for (block_size = warp_size; block_size <= 1024; block_size += warp_size)\<close>
  with its inner loop over the list \<open>tpps\<close> that
  \<^verbatim>\<open>Autotuner::getTppListPow2(warpSize)\<close> returns, pushing
  \<^verbatim>\<open>block_size * 10000 + s\<close>. With a warp size of 0 the loop never ends, so the
  function is partial: \<open>None\<close> is the constructor that does not return.
\<close>

partial_function (option) dpd_block_loop ::
  "u32 \<Rightarrow> u32 list \<Rightarrow> u32 \<Rightarrow> u32 list \<Rightarrow> u32 list option" where
  "dpd_block_loop warp_size tpps block_size valid_params =
     (if block_size \<le> 1024 then
        dpd_block_loop warp_size tpps (block_size + warp_size)
          (valid_params @ map (\<lambda>s. block_size * 10000 + s) tpps)
      else Some valid_params)"

definition dpd_valid_params :: "u32 \<Rightarrow> u32 list \<Rightarrow> u32 list option" where
  "dpd_valid_params warp_size tpps = dpd_block_loop warp_size tpps warp_size []"

subsection \<open>The object and its constructor\<close>

text \<open>
  \<open>ExecutionConfiguration\<close>: the three things the class reads from \<open>m_exec_conf\<close>.
  The neighbour list is present through its storage mode only.
\<close>

record ExecutionConfiguration =
  isCUDAEnabled :: bool
  isCUDAErrorCheckingEnabled :: bool
  warpSize :: u32

datatype storageMode = half | full

record PotentialPairDPDThermoGPU =
  m_exec_conf :: ExecutionConfiguration
  m_storage_mode :: storageMode
  m_tuner :: Autotuner
  m_param :: u32

text \<open>
  The constructor. \<open>getTppListPow2\<close> stands for the static method of the missing
  \<^verbatim>\<open>Autotuner\<close> class, \<open>name\<close> for \<^verbatim>\<open>evaluator::getName()\<close>, and
  \<open>decomposition\<close> for \<^verbatim>\<open>bool(m_pdata->getDomainDecomposition())\<close> in an MPI
  build (\<open>False\<close> otherwise).
\<close>

definition PotentialPairDPDThermoGPU_new ::
  "ExecutionConfiguration \<Rightarrow> storageMode \<Rightarrow> (u32 \<Rightarrow> u32 list) \<Rightarrow> string \<Rightarrow> bool
     \<Rightarrow> (error + PotentialPairDPDThermoGPU) option" where
  "PotentialPairDPDThermoGPU_new exec_conf nlist_mode getTppListPow2 name decomposition =
     (if \<not> isCUDAEnabled exec_conf
      then Some (Inl (RuntimeError ''Error initializing PotentialPairDPDThermoGPU''))
      else
        (let warp_size = warpSize exec_conf in
         case dpd_valid_params warp_size (getTppListPow2 warp_size) of
           None \<Rightarrow> None
         | Some valid_params \<Rightarrow>
             (case Autotuner_construct valid_params 5 100000 (''pair_'' @ name) False of
                Inl e \<Rightarrow> Some (Inl e)
              | Inr tuner \<Rightarrow>
                  Some (Inr \<lparr> m_exec_conf = exec_conf,
                              m_storage_mode = nlist_mode,
                              m_tuner = setSync tuner decomposition,
                              m_param = 0 \<rparr>))))"

definition setTuningParam :: "PotentialPairDPDThermoGPU \<Rightarrow> u32 \<Rightarrow> PotentialPairDPDThermoGPU" where
  "setTuningParam s param = s\<lparr> m_param := param \<rparr>"

subsection \<open>computeForces\<close>

text \<open>
  The calls \<^verbatim>\<open>computeForces\<close> makes to its collaborators, in order. The kernel
  launch carries the block size and the threads per particle it is given.
\<close>

datatype call =
    NlistCompute u64
  | MsgError string
  | TunerBegin
  | TunerGetParam
  | KernelLaunch u32 u32
  | CheckCudaError
  | TunerEnd

text \<open>
  What the device decides during one call: the duration the tuner measures between
  \<^verbatim>\<open>begin()\<close> and \<^verbatim>\<open>end()\<close>, and whether the launch left a device error for
  \<^verbatim>\<open>CHECK_CUDA_ERROR()\<close> to find.
\<close>

record launch_env =
  elapsed :: rat
  device_error :: bool

text \<open>
  Modelled from the spec: the macro \<^verbatim>\<open>CHECK_CUDA_ERROR()\<close> is not among the sources;
  by the spec's taxonomy a failed post-launch check surfaces a DeviceExecutionError.
  The function returns the outcome, the calls made, and the object afterwards.
  \<^verbatim>\<open>!m_param\<close> is \<open>m_param s = 0\<close>.
\<close>

definition computeForces ::
  "PotentialPairDPDThermoGPU \<Rightarrow> u64 \<Rightarrow> launch_env
     \<Rightarrow> (error + unit) \<times> call list \<times> PotentialPairDPDThermoGPU" where
  "computeForces s timestep env =
     (let calls0 = [NlistCompute timestep];
          third_law = (m_storage_mode s = half) in
      if third_law then
        (Inl (RuntimeError ''Error computing forces in PotentialPairDPDThermoGPU''),
         calls0 @ [MsgError ''PotentialPairDPDThermoGPU cannot handle a half neighborlist''],
         s)
      else
        (case (if m_param s = 0 then tuner_begin (m_tuner s) else Inr (m_tuner s)) of
           Inl e \<Rightarrow> (Inl e, calls0 @ [TunerBegin], s)
         | Inr t1 \<Rightarrow>
             (let calls1 = calls0 @ (if m_param s = 0 then [TunerBegin] else []);
                  param = (if m_param s = 0 then getParam t1 else m_param s);
                  calls2 = calls1 @ (if m_param s = 0 then [TunerGetParam] else []);
                  block_size = param div 10000;
                  threads_per_particle = param mod 10000;
                  calls3 = calls2 @ [KernelLaunch block_size threads_per_particle];
                  s1 = s\<lparr> m_tuner := t1 \<rparr> in
              if isCUDAErrorCheckingEnabled (m_exec_conf s) \<and> device_error env
              then (Inl DeviceExecutionError, calls3 @ [CheckCudaError], s1)
              else
                (let calls4 = calls3 @
                       (if isCUDAErrorCheckingEnabled (m_exec_conf s)
                        then [CheckCudaError] else []) in
                 if m_param s = 0 then
                   (case tuner_end t1 (elapsed env) of
                      Inl e \<Rightarrow> (Inl e, calls4 @ [TunerEnd], s1)
                    | Inr t2 \<Rightarrow> (Inr (), calls4 @ [TunerEnd], s\<lparr> m_tuner := t2 \<rparr>))
                 else (Inr (), calls4, s1)))))"

section \<open>PatchEnergyJITUnionGPU (PatchEnergyJITUnionGPU.h)\<close>

subsection \<open>The candidate launch parameters of the narrow phase\<close>

text \<open>
  The three nested loops of the constructor. The innermost,
  \<^verbatim>\<open>for (eval_threads = 1; eval_threads <= max_threads; eval_threads *= 2)\<close>,
  tests \<^verbatim>\<open>cur_launch_bounds % (group_size * eval_threads) == 0\<close>; an unsigned
  remainder by zero is undefined behaviour in C++ and is the error \<open>DivisionByZero\<close>
  here (the 32-bit product is zero once a doubling has wrapped around). The loops are
  partial functions: a group size that has wrapped to 0 under a warp size of 0 is
  doubled forever.
\<close>

partial_function (option) et_loop ::
  "u32 \<Rightarrow> u32 \<Rightarrow> u32 \<Rightarrow> u32 \<Rightarrow> u32 list \<Rightarrow> (error + u32 list) option" where
  "et_loop max_threads cur_launch_bounds group_size eval_threads valid_params =
     (if eval_threads \<le> max_threads then
        (if group_size * eval_threads = 0 then Some (Inl DivisionByZero)
         else et_loop max_threads cur_launch_bounds group_size (eval_threads * 2)
                (if cur_launch_bounds mod (group_size * eval_threads) = 0
                 then valid_params @
                      [cur_launch_bounds * 1000000 + group_size * 100 + eval_threads]
                 else valid_params))
      else Some (Inr valid_params))"

partial_function (option) gs_loop ::
  "u32 \<Rightarrow> u32 \<Rightarrow> u32 \<Rightarrow> u32 list \<Rightarrow> (error + u32 list) option" where
  "gs_loop max_threads cur_launch_bounds group_size valid_params =
     (if group_size \<le> cur_launch_bounds then
        (case et_loop max_threads cur_launch_bounds group_size 1 valid_params of
           None \<Rightarrow> None
         | Some (Inl e) \<Rightarrow> Some (Inl e)
         | Some (Inr valid_params') \<Rightarrow>
             gs_loop max_threads cur_launch_bounds (group_size * 2) valid_params')
      else Some (Inr valid_params))"

fun jit_bounds_loop :: "u32 \<Rightarrow> u32 list \<Rightarrow> u32 list \<Rightarrow> (error + u32 list) option" where
  "jit_bounds_loop max_threads [] valid_params = Some (Inr valid_params)"
| "jit_bounds_loop max_threads (cur_launch_bounds # rest) valid_params =
     (case gs_loop max_threads cur_launch_bounds 1 valid_params of
        None \<Rightarrow> None
      | Some (Inl e) \<Rightarrow> Some (Inl e)
      | Some (Inr valid_params') \<Rightarrow> jit_bounds_loop max_threads rest valid_params')"

definition jit_valid_params :: "u32 \<Rightarrow> u32 list \<Rightarrow> (error + u32 list) option" where
  "jit_valid_params warp_size launch_bounds = jit_bounds_loop warp_size launch_bounds []"

subsection \<open>The object\<close>

text \<open>
  A \<^verbatim>\<open>float\<close> is kept as its 32-bit pattern: the setters only copy values. The
  Python lists are taken after their casts, as lists of the element type. The per-type
  vectors (\<open>m_type\<close>, \<open>m_position\<close>, ..., \<open>m_d_union_params\<close>) have one entry per
  particle type and are indexed by the id \<^verbatim>\<open>getTypeByName\<close> returns; they are
  functions on type ids. \<open>'tree\<close> is the type of the bounding-volume tree
  (\<^verbatim>\<open>GPUTree\<close>), whose construction is outside these sources.
\<close>

type_synonym float = "32 word"
type_synonym vec3 = "float \<times> float \<times> float"
type_synonym quat = "float \<times> vec3"

record 'tree union_params_t =
  mtype :: "u32 list"
  mpos :: "vec3 list"
  morientation :: "quat list"
  mdiameter :: "float list"
  mcharge :: "float list"
  tree :: 'tree

record 'tree PatchEnergyJITUnionGPU =
  type_mapping :: "string list"
  m_type :: "nat \<Rightarrow> u32 list"
  m_position :: "nat \<Rightarrow> vec3 list"
  m_orientation :: "nat \<Rightarrow> quat list"
  m_diameter :: "nat \<Rightarrow> float list"
  m_charge :: "nat \<Rightarrow> float list"
  m_tree :: "nat \<Rightarrow> 'tree"
  m_d_union_params :: "nat \<Rightarrow> 'tree union_params_t"
  m_tuner_narrow_patch :: Autotuner
  m_managed_memory :: bool

text \<open>
  The constructor, from the base-class members as the (missing) base constructor left
  them, the launch bounds \<^verbatim>\<open>m_gpu_factory.getLaunchBounds()\<close> reports and the
  default tree of \<^verbatim>\<open>jit::union_params_t()\<close>.
\<close>

definition PatchEnergyJITUnionGPU_new ::
  "ExecutionConfiguration \<Rightarrow> u32 list \<Rightarrow> string list
     \<Rightarrow> (nat \<Rightarrow> u32 list) \<Rightarrow> (nat \<Rightarrow> vec3 list) \<Rightarrow> (nat \<Rightarrow> quat list)
     \<Rightarrow> (nat \<Rightarrow> float list) \<Rightarrow> (nat \<Rightarrow> float list) \<Rightarrow> (nat \<Rightarrow> 'tree) \<Rightarrow> 'tree
     \<Rightarrow> (error + 'tree PatchEnergyJITUnionGPU) option" where
  "PatchEnergyJITUnionGPU_new exec_conf launch_bounds types
       base_type base_position base_orientation base_diameter base_charge base_tree
       default_tree =
     (let narrow_phase_max_threads_per_eval = warpSize exec_conf in
      case jit_valid_params narrow_phase_max_threads_per_eval launch_bounds of
        None \<Rightarrow> None
      | Some (Inl e) \<Rightarrow> Some (Inl e)
      | Some (Inr valid_params_patch) \<Rightarrow>
          (case Autotuner_construct valid_params_patch 5 100000 ''hpmc_narrow_patch'' False of
             Inl e \<Rightarrow> Some (Inl e)
           | Inr tuner \<Rightarrow>
               Some (Inr \<lparr> type_mapping = types,
                           m_type = base_type,
                           m_position = base_position,
                           m_orientation = base_orientation,
                           m_diameter = base_diameter,
                           m_charge = base_charge,
                           m_tree = base_tree,
                           m_d_union_params =
                             (\<lambda>_. \<lparr> mtype = [], mpos = [], morientation = [],
                                     mdiameter = [], mcharge = [], tree = default_tree \<rparr>),
                           m_tuner_narrow_patch = tuner,
                           m_managed_memory = True \<rparr>)))"

subsection \<open>The type registry\<close>

text \<open>
  Modelled from the spec: \<^verbatim>\<open>ParticleData::getTypeByName\<close> is not among the sources.
  The spec has a type-name to numeric-id registry and a ConfigurationError for an unknown
  type name: the id is the position of the name in the list of type names.
\<close>

fun type_index :: "string list \<Rightarrow> string \<Rightarrow> nat option" where
  "type_index [] name = None"
| "type_index (n # ns) name =
     (if n = name then Some 0 else map_option Suc (type_index ns name))"

text \<open>Modelled from the spec: the lookup that raises on an unknown name.\<close>

definition getTypeByName :: "string list \<Rightarrow> string \<Rightarrow> error + nat" where
  "getTypeByName types name =
     (case type_index types name of
        None \<Rightarrow> Inl (ConfigurationError ''unknown type name'')
      | Some type_id \<Rightarrow> Inr type_id)"

subsection \<open>The setters\<close>

text \<open>
  What a setter does to the device-shared parameter block of a type, in order: an
  assignment to one of its fields, \<^verbatim>\<open>set_memory_hint()\<close>, and the call of the base
  class's \<^verbatim>\<open>buildOBBTree\<close>.
\<close>

datatype field = F_mtype | F_mpos | F_morientation | F_mdiameter | F_mcharge | F_tree

datatype dev_op =
    Assign nat field
  | SetMemoryHint nat
  | BaseBuildOBBTree nat

text \<open>
  Modelled from the spec: \<^verbatim>\<open>PatchEnergyJITUnion::buildOBBTree\<close> is not among the
  sources. By the spec a build is a full rebuild from the constituents of the type, so
  the base method stores in \<open>m_tree\<close> the tree that a function \<open>build\<close>, a parameter,
  computes from the constituent data stored for the type. The override below then copies
  the tree into the parameter block, as the source does.
\<close>

definition buildOBBTree ::
  "(u32 list \<Rightarrow> vec3 list \<Rightarrow> quat list \<Rightarrow> float list \<Rightarrow> float list \<Rightarrow> 'tree)
     \<Rightarrow> 'tree PatchEnergyJITUnionGPU \<Rightarrow> nat \<Rightarrow> dev_op list \<times> 'tree PatchEnergyJITUnionGPU" where
  "buildOBBTree build s type_id =
     (let s1 = s\<lparr> m_tree := (m_tree s)
                  (type_id := build (m_type s type_id) (m_position s type_id)
                     (m_orientation s type_id) (m_diameter s type_id) (m_charge s type_id)) \<rparr>
      in ([BaseBuildOBBTree type_id, Assign type_id F_tree],
          s1\<lparr> m_d_union_params := (m_d_union_params s1)
                 (type_id := (m_d_union_params s1 type_id)\<lparr> tree := m_tree s1 type_id \<rparr>) \<rparr>))"

definition setTypeids ::
  "'tree PatchEnergyJITUnionGPU \<Rightarrow> string \<Rightarrow> u32 list
     \<Rightarrow> error + dev_op list \<times> 'tree PatchEnergyJITUnionGPU" where
  "setTypeids s type typeids =
     (case getTypeByName (type_mapping s) type of
        Inl e \<Rightarrow> Inl e
      | Inr type_id \<Rightarrow>
          (let new_type_ids = typeids;
               s1 = s\<lparr> m_type := (m_type s)(type_id := typeids) \<rparr>
           in Inr ([Assign type_id F_mtype, SetMemoryHint type_id],
                   s1\<lparr> m_d_union_params := (m_d_union_params s1)
                     (type_id := (m_d_union_params s1 type_id)\<lparr> mtype := new_type_ids \<rparr>) \<rparr>)))"

definition setPositions ::
  "(u32 list \<Rightarrow> vec3 list \<Rightarrow> quat list \<Rightarrow> float list \<Rightarrow> float list \<Rightarrow> 'tree)
     \<Rightarrow> 'tree PatchEnergyJITUnionGPU \<Rightarrow> string \<Rightarrow> vec3 list
     \<Rightarrow> error + dev_op list \<times> 'tree PatchEnergyJITUnionGPU" where
  "setPositions build s type position =
     (case getTypeByName (type_mapping s) type of
        Inl e \<Rightarrow> Inl e
      | Inr type_id \<Rightarrow>
          (let new_positions = position;
               s1 = s\<lparr> m_position := (m_position s)(type_id := position) \<rparr>;
               s2 = s1\<lparr> m_d_union_params := (m_d_union_params s1)
                     (type_id := (m_d_union_params s1 type_id)\<lparr> mpos := new_positions \<rparr>) \<rparr>;
               (ops, s3) = buildOBBTree build s2 type_id
           in Inr ([Assign type_id F_mpos, SetMemoryHint type_id] @ ops, s3)))"

definition setOrientations ::
  "'tree PatchEnergyJITUnionGPU \<Rightarrow> string \<Rightarrow> quat list
     \<Rightarrow> error + dev_op list \<times> 'tree PatchEnergyJITUnionGPU" where
  "setOrientations s type orientation =
     (case getTypeByName (type_mapping s) type of
        Inl e \<Rightarrow> Inl e
      | Inr type_id \<Rightarrow>
          (let new_orientations = orientation;
               s1 = s\<lparr> m_orientation := (m_orientation s)(type_id := orientation) \<rparr>
           in Inr ([Assign type_id F_morientation, SetMemoryHint type_id],
                   s1\<lparr> m_d_union_params := (m_d_union_params s1)
                     (type_id := (m_d_union_params s1 type_id)
                        \<lparr> morientation := new_orientations \<rparr>) \<rparr>)))"

definition setDiameters ::
  "'tree PatchEnergyJITUnionGPU \<Rightarrow> string \<Rightarrow> float list
     \<Rightarrow> error + dev_op list \<times> 'tree PatchEnergyJITUnionGPU" where
  "setDiameters s type diameter =
     (case getTypeByName (type_mapping s) type of
        Inl e \<Rightarrow> Inl e
      | Inr type_id \<Rightarrow>
          (let new_diameters = diameter;
               s1 = s\<lparr> m_diameter := (m_diameter s)(type_id := diameter) \<rparr>
           in Inr ([Assign type_id F_mdiameter, SetMemoryHint type_id],
                   s1\<lparr> m_d_union_params := (m_d_union_params s1)
                     (type_id := (m_d_union_params s1 type_id)\<lparr> mdiameter := new_diameters \<rparr>) \<rparr>)))"

definition setCharges ::
  "'tree PatchEnergyJITUnionGPU \<Rightarrow> string \<Rightarrow> float list
     \<Rightarrow> error + dev_op list \<times> 'tree PatchEnergyJITUnionGPU" where
  "setCharges s type charge =
     (case getTypeByName (type_mapping s) type of
        Inl e \<Rightarrow> Inl e
      | Inr type_id \<Rightarrow>
          (let new_charges = charge;
               s1 = s\<lparr> m_charge := (m_charge s)(type_id := charge) \<rparr>
           in Inr ([Assign type_id F_mcharge, SetMemoryHint type_id],
                   s1\<lparr> m_d_union_params := (m_d_union_params s1)
                     (type_id := (m_d_union_params s1 type_id)\<lparr> mcharge := new_charges \<rparr>) \<rparr>)))"

section \<open>Auxiliary definitions\<close>

text \<open>
  The tuner after construction with some samples recorded, as an explicit record:
  scanning at candidate \<open>i\<close> with accumulators \<open>S\<close>, and locked.
\<close>

definition scan_state ::
  "u32 list \<Rightarrow> nat \<Rightarrow> nat \<Rightarrow> string \<Rightarrow> bool \<Rightarrow> nat \<Rightarrow> rat list list \<Rightarrow> Autotuner" where
  "scan_state cs n p name sync i S =
     \<lparr> at_candidates = cs, at_nsamples = n, at_period = p, at_name = name, at_sync = sync,
       at_state = Scanning, at_index = i, at_samples = S, at_calls = 0,
       at_in_bracket = False \<rparr>"

definition locked_state ::
  "u32 list \<Rightarrow> nat \<Rightarrow> nat \<Rightarrow> string \<Rightarrow> bool \<Rightarrow> nat \<Rightarrow> rat list list \<Rightarrow> Autotuner" where
  "locked_state cs n p name sync i S =
     \<lparr> at_candidates = cs, at_nsamples = n, at_period = p, at_name = name, at_sync = sync,
       at_state = Locked, at_index = i, at_samples = S, at_calls = 0,
       at_in_bracket = False \<rparr>"

definition state_at ::
  "u32 list \<Rightarrow> nat \<Rightarrow> nat \<Rightarrow> string \<Rightarrow> bool \<Rightarrow> nat \<Rightarrow> rat list list \<Rightarrow> Autotuner" where
  "state_at cs n p name sync j S =
     (if j < length cs then scan_state cs n p name sync j S
      else locked_state cs n p name sync (j - 1) S)"

text \<open>
  The 32-bit powers of two from exponent \<open>k\<close> upwards; \<open>is_pow2\<close> is "a power of
  two" for an \<^verbatim>\<open>unsigned int\<close>.
\<close>

definition pow2_from :: "nat \<Rightarrow> u32 list" where
  "pow2_from k = map (\<lambda>j. 2 ^ j) [k ..< 32]"

definition is_pow2 :: "u32 \<Rightarrow> bool" where
  "is_pow2 w = (w \<in> set (pow2_from 0))"

text \<open>
  The keys the two inner loops of the narrow-phase constructor push, in closed form, the
  divisibility test of the innermost loop, and the range of launch bounds in which no
  32-bit operation of these loops wraps around.
\<close>

definition et_keys :: "u32 \<Rightarrow> u32 \<Rightarrow> u32 \<Rightarrow> nat \<Rightarrow> u32 list" where
  "et_keys ws clb gs k =
     map (\<lambda>e. clb * 1000000 + gs * 100 + e)
       (filter (\<lambda>e. clb mod (gs * e) = 0) (filter (\<lambda>e. e \<le> ws) (pow2_from k)))"

definition gs_keys :: "u32 \<Rightarrow> u32 \<Rightarrow> nat \<Rightarrow> u32 list" where
  "gs_keys ws clb k =
     concat (map (\<lambda>g. et_keys ws clb g 0) (filter (\<lambda>g. g \<le> clb) (pow2_from k)))"

definition divides_launch_bound :: "u32 \<Rightarrow> u32 \<Rightarrow> u32 \<Rightarrow> bool" where
  "divides_launch_bound clb g e = (clb mod (g * e) = 0)"

definition launch_bound_ok :: "u32 \<Rightarrow> u32 \<Rightarrow> bool" where
  "launch_bound_ok ws clb = (clb \<noteq> 0 \<and> unat clb * unat ws < 2 ^ 31)"

text \<open>Per-type vectors in which no type has a constituent yet.\<close>

definition no_constituents :: "nat \<Rightarrow> 'a list" where
  "no_constituents type_id = []"

text \<open>
  Objects for the examples: a freshly constructed tuner with the single candidate 320004,
  a pair potential on a device with warp size 32, and a union potential with the one
  particle type \<open>A\<close> and no constituents yet, whose tree is represented by the list of
  points it is built over.
\<close>

definition example_tuner :: Autotuner where
  "example_tuner = scan_state [320004] 5 100000 ''pair_DPD'' False 0 [[]]"

definition example_dpd :: "bool \<Rightarrow> storageMode \<Rightarrow> PotentialPairDPDThermoGPU" where
  "example_dpd checking mode =
     \<lparr> m_exec_conf = \<lparr> isCUDAEnabled = True, isCUDAErrorCheckingEnabled = checking,
                        warpSize = 32 \<rparr>,
       m_storage_mode = mode, m_tuner = example_tuner, m_param = 0 \<rparr>"

definition example_jit :: "vec3 list PatchEnergyJITUnionGPU" where
  "example_jit =
     \<lparr> type_mapping = [''A''],
       m_type = no_constituents, m_position = no_constituents, m_orientation = no_constituents,
       m_diameter = no_constituents, m_charge = no_constituents, m_tree = no_constituents,
       m_d_union_params =
         (\<lambda>_. \<lparr> mtype = [], mpos = [], morientation = [], mdiameter = [], mcharge = [],
                 tree = [] \<rparr>),
       m_tuner_narrow_patch = scan_state [64000101] 5 100000 ''hpmc_narrow_patch'' False 0 [[]],
       m_managed_memory = True \<rparr>"

definition example_build ::
  "u32 list \<Rightarrow> vec3 list \<Rightarrow> quat list \<Rightarrow> float list \<Rightarrow> float list \<Rightarrow> vec3 list" where
  "example_build types positions orientations diameters charges = positions"

section \<open>Properties of SystemDefinition\<close>

lemma setNDimensions_valid:
  "n = 2 \<or> n = 3 \<Longrightarrow> setNDimensions sd n = (Inr (), sd\<lparr> m_n_dimensions := n \<rparr>)"
  by (auto simp: setNDimensions_def)

lemma setNDimensions_invalid_with_particle_data:
  assumes "n \<noteq> 2" "n \<noteq> 3" "m_particle_data sd = Some pd"
  shows "fst (setNDimensions sd n) = Inl (RuntimeError ''Error setting dimensions'')"
    and "m_n_dimensions (snd (setNDimensions sd n)) = m_n_dimensions sd"
  using assms by (simp_all add: setNDimensions_def)

text \<open>
  Claim C10. \<^verbatim>\<open>setNDimensions(n)\<close> is claimed to throw a runtime error for every
  \<open>n\<close> other than 2 and 3. On an object whose particle data pointer is still NULL (the
  default-constructed object the Python binding exports, and the object under
  construction from a snapshot) the error branch calls \<^verbatim>\<open>getExecConf()\<close> through
  the NULL pointer before it reaches the \<^verbatim>\<open>throw\<close>: for \<open>n = 4\<close> the call ends in
  a NULL dereference, not in the runtime error, both directly and through the snapshot
  constructor.
\<close>

theorem setNDimensions_null_particle_data:
  "fst (setNDimensions (SystemDefinition_default 0) 4) = Inl NullPointerDereference
   \<and> fst (setNDimensions (SystemDefinition_default 0) 4)
       \<noteq> Inl (RuntimeError ''Error setting dimensions'')
   \<and> SystemDefinition_from_snapshot 0 4 \<lparr> pd_error_log = [] \<rparr> = Inl NullPointerDereference"
  by (simp add: setNDimensions_def SystemDefinition_default_def
      SystemDefinition_from_snapshot_def)

section \<open>Properties of the Autotuner model\<close>

lemma construct_scan_state:
  "cs \<noteq> [] \<Longrightarrow>
   Autotuner_construct cs n p name sync = Inr (scan_state cs n p name sync 0 (replicate (length cs) []))"
  by (simp add: Autotuner_construct_def scan_state_def)

lemma run_pairs_append:
  "run_pairs t (xs @ ys) =
     (case run_pairs t xs of
        Inl e \<Rightarrow> Inl e
      | Inr (ps, t') \<Rightarrow>
          (case run_pairs t' ys of
             Inl e \<Rightarrow> Inl e
           | Inr (qs, t'') \<Rightarrow> Inr (ps @ qs, t'')))"
  by (induction xs arbitrary: t) (auto split: sum.splits prod.splits)

lemma run_pairs_seq:
  "run_pairs t xs = Inr (ps, t') \<Longrightarrow> run_pairs t' ys = Inr (qs, t'') \<Longrightarrow>
   run_pairs t (xs @ ys) = Inr (ps @ qs, t'')"
  by (simp add: run_pairs_append)

lemma pair_partial:
  assumes "i < length S" "Suc (length (S ! i)) < n"
  shows "run_pairs (scan_state cs n p name sync i S) [d] =
         Inr ([cs ! i], scan_state cs n p name sync i (S[i := S ! i @ [d]]))"
  using assms
  by (simp add: scan_state_def tuner_begin_def tuner_end_def record_sample_def getParam_def Let_def)

lemma pair_full:
  assumes "i < length S" "n \<le> Suc (length (S ! i))" "i < length cs"
  shows "run_pairs (scan_state cs n p name sync i S) [d] =
         Inr ([cs ! i], state_at cs n p name sync (Suc i) (S[i := S ! i @ [d]]))"
  using assms
  by (simp add: scan_state_def locked_state_def state_at_def tuner_begin_def tuner_end_def
      record_sample_def getParam_def Let_def)

lemma run_partial_chunk:
  assumes "i < length S" "length (S ! i) + length xs < n"
  shows "run_pairs (scan_state cs n p name sync i S) xs =
         Inr (replicate (length xs) (cs ! i), scan_state cs n p name sync i (S[i := S ! i @ xs]))"
  using assms
proof (induction xs arbitrary: S)
  case Nil
  then show ?case by simp
next
  case (Cons d xs)
  let ?S = "S[i := S ! i @ [d]]"
  have one: "run_pairs (scan_state cs n p name sync i S) [d] =
         Inr ([cs ! i], scan_state cs n p name sync i ?S)"
    using Cons.prems by (intro pair_partial) auto
  have rest: "run_pairs (scan_state cs n p name sync i ?S) xs =
         Inr (replicate (length xs) (cs ! i), scan_state cs n p name sync i (?S[i := ?S ! i @ xs]))"
    using Cons.prems by (intro Cons.IH) auto
  have "run_pairs (scan_state cs n p name sync i S) ([d] @ xs) =
         Inr ([cs ! i] @ replicate (length xs) (cs ! i),
              scan_state cs n p name sync i (?S[i := ?S ! i @ xs]))"
    by (rule run_pairs_seq [OF one rest])
  moreover have "?S[i := ?S ! i @ xs] = S[i := S ! i @ d # xs]"
    using Cons.prems by simp
  ultimately show ?case by simp
qed

lemma run_full_chunk:
  assumes "i < length S" "i < length cs" "S ! i = []" "xs \<noteq> []" "length xs = n"
  shows "run_pairs (scan_state cs n p name sync i S) xs =
         Inr (replicate n (cs ! i), state_at cs n p name sync (Suc i) (S[i := xs]))"
proof -
  obtain ys d where xs: "xs = ys @ [d]"
    using assms(4) by (metis rev_exhaust)
  let ?S = "S[i := ys]"
  have front: "run_pairs (scan_state cs n p name sync i S) ys =
         Inr (replicate (length ys) (cs ! i), scan_state cs n p name sync i ?S)"
    using run_partial_chunk [of i S ys n cs p name sync] assms xs by simp
  have last: "run_pairs (scan_state cs n p name sync i ?S) [d] =
         Inr ([cs ! i], state_at cs n p name sync (Suc i) (?S[i := ?S ! i @ [d]]))"
    using assms xs by (intro pair_full) auto
  have S: "?S[i := ?S ! i @ [d]] = S[i := xs]"
    using assms xs by simp
  have "n = Suc (length ys)"
    using assms xs by simp
  then have R: "replicate (length ys) (cs ! i) @ [cs ! i] = replicate n (cs ! i)"
    by (simp add: replicate_append_same)
  show ?thesis
    using run_pairs_seq [OF front last] unfolding xs S R .
qed

lemma run_chunks:
  assumes "0 < n" "length S = length cs" "i < length cs" "i + length dss \<le> length cs"
    and "\<forall>xs \<in> set dss. length xs = n"
    and "\<forall>j. i \<le> j \<and> j < length cs \<longrightarrow> S ! j = []"
  shows "run_pairs (scan_state cs n p name sync i S) (concat dss) =
         Inr (concat (map (\<lambda>j. replicate n (cs ! j)) [i ..< i + length dss]),
              state_at cs n p name sync (i + length dss)
                (take i S @ dss @ drop (i + length dss) S))"
  using assms
proof (induction dss arbitrary: i S)
  case Nil
  then show ?case by (simp add: state_at_def)
next
  case (Cons xs dss)
  let ?S = "S[i := xs]"
  have chunk: "run_pairs (scan_state cs n p name sync i S) xs =
         Inr (replicate n (cs ! i), state_at cs n p name sync (Suc i) ?S)"
    using Cons.prems by (intro run_full_chunk) auto
  have upd: "take (Suc i) ?S = take i S @ [xs]"
    using Cons.prems by (simp add: take_Suc_conv_app_nth)
  have idx: "[i ..< i + length (xs # dss)] = i # [Suc i ..< Suc i + length dss]"
    by (subst upt_rec) simp
  show ?case
  proof (cases "Suc i < length cs")
    case True
    have rest: "run_pairs (scan_state cs n p name sync (Suc i) ?S) (concat dss) =
         Inr (concat (map (\<lambda>j. replicate n (cs ! j)) [Suc i ..< Suc i + length dss]),
              state_at cs n p name sync (Suc i + length dss)
                (take (Suc i) ?S @ dss @ drop (Suc i + length dss) ?S))"
      using Cons.prems True by (intro Cons.IH) auto
    have chunk': "run_pairs (scan_state cs n p name sync i S) xs =
         Inr (replicate n (cs ! i), scan_state cs n p name sync (Suc i) ?S)"
      using chunk True by (simp add: state_at_def)
    have "run_pairs (scan_state cs n p name sync i S) (xs @ concat dss) =
         Inr (replicate n (cs ! i) @ concat (map (\<lambda>j. replicate n (cs ! j)) [Suc i ..< Suc i + length dss]),
              state_at cs n p name sync (Suc i + length dss)
                (take (Suc i) ?S @ dss @ drop (Suc i + length dss) ?S))"
      by (rule run_pairs_seq [OF chunk' rest])
    then show ?thesis
      unfolding idx upd by simp
  next
    case False
    have "length dss \<le> 0"
      using Cons.prems(4) False by (simp only: length_Cons)
    then have dss: "dss = []" by simp
    have i: "Suc i = length cs"
      using Cons.prems(3) False by linarith
    show ?thesis
      using chunk upd Cons.prems(2) unfolding dss i [symmetric] by simp
  qed
qed

lemma pick_best_sound:
  "pick_best b xs \<in> set (b # xs) \<and>
   (\<forall>c \<in> set (b # xs). snd (pick_best b xs) < snd c \<or>
        (snd (pick_best b xs) = snd c \<and> fst (pick_best b xs) \<le> fst c))"
proof (induction xs arbitrary: b)
  case Nil
  then show ?case by simp
next
  case (Cons c xs)
  let ?b = "if snd c < snd b \<or> (snd c = snd b \<and> fst c < fst b) then c else b"
  note IH = Cons.IH [of ?b]
  have mem: "pick_best b (c # xs) \<in> set (b # c # xs)"
    using IH by (auto split: if_splits)
  have low: "snd (pick_best ?b xs) < snd ?b \<or>
        (snd (pick_best ?b xs) = snd ?b \<and> fst (pick_best ?b xs) \<le> fst ?b)"
    using IH by simp
  have "\<forall>x \<in> set (b # c # xs). snd (pick_best ?b xs) < snd x \<or>
        (snd (pick_best ?b xs) = snd x \<and> fst (pick_best ?b xs) \<le> fst x)"
  proof
    fix x assume "x \<in> set (b # c # xs)"
    then consider "x = b" | "x = c" | "x \<in> set xs" by auto
    then show "snd (pick_best ?b xs) < snd x \<or>
        (snd (pick_best ?b xs) = snd x \<and> fst (pick_best ?b xs) \<le> fst x)"
    proof cases
      case 1
      then show ?thesis using low by (auto split: if_splits)
    next
      case 2
      then show ?thesis using low by (auto split: if_splits)
    next
      case 3
      then show ?thesis using IH by simp
    qed
  qed
  with mem show ?case by simp
qed

lemma arg_min_mean_sound:
  assumes "cs \<noteq> []" "length S = length cs"
  shows "\<exists>i < length cs. arg_min_mean cs S = cs ! i \<and>
           (\<forall>j < length cs. mean (S ! i) < mean (S ! j) \<or>
                (mean (S ! i) = mean (S ! j) \<and> cs ! i \<le> cs ! j))"
proof -
  obtain q qs where z: "zip cs (map mean S) = q # qs"
    using assms by (cases cs; cases S) auto
  let ?r = "pick_best q qs"
  have best: "arg_min_mean cs S = fst ?r"
    by (simp add: arg_min_mean_def z)
  have "?r \<in> set (zip cs (map mean S))"
    using pick_best_sound [of q qs] z by simp
  then obtain i where i: "i < length cs" "?r = (cs ! i, mean (S ! i))"
    using assms by (auto simp: set_zip)
  have "\<forall>j < length cs. mean (S ! i) < mean (S ! j) \<or>
                (mean (S ! i) = mean (S ! j) \<and> cs ! i \<le> cs ! j)"
  proof (intro allI impI)
    fix j assume j: "j < length cs"
    then have "(cs ! j, mean (S ! j)) \<in> set (q # qs)"
      using assms unfolding z [symmetric] by (auto simp: set_zip)
    then show "mean (S ! i) < mean (S ! j) \<or>
                (mean (S ! i) = mean (S ! j) \<and> cs ! i \<le> cs ! j)"
      using pick_best_sound [of q qs] i(2) by fastforce
  qed
  with i best show ?thesis by auto
qed

text \<open>
  Claim C4. For a non-empty candidate list \<open>cs\<close> and a positive sample count \<open>n\<close>,
  let \<open>dss\<close> give the \<open>n\<close> durations measured for each candidate in turn. The
  \<open>n * length cs\<close> begin/end pairs that record them probe every candidate \<open>n\<close> times
  in order and leave the tuner Locked, and \<^verbatim>\<open>getParam()\<close> then returns a candidate
  whose mean duration is minimal, the smallest key among those of minimal mean. After
  any smaller number of pairs the tuner is still Scanning, at the candidate being
  probed.
\<close>

theorem autotuner_locks_on_min_mean:
  assumes "Autotuner_construct cs n p name sync = Inr t0"
    and "0 < n"
    and "length dss = length cs"
    and "\<forall>xs \<in> set dss. length xs = n"
  shows "length (concat dss) = n * length cs
       \<and> (\<exists>t. run_pairs t0 (concat dss) = Inr (concat (map (replicate n) cs), t)
              \<and> at_state t = Locked
              \<and> (\<exists>i < length cs. getParam t = cs ! i
                    \<and> (\<forall>j < length cs. mean (dss ! i) < mean (dss ! j)
                           \<or> (mean (dss ! i) = mean (dss ! j) \<and> cs ! i \<le> cs ! j))))
       \<and> (\<forall>q < length cs. \<forall>r < n.
             \<exists>ps t. run_pairs t0 (concat (take q dss) @ take r (dss ! q)) = Inr (ps, t)
                   \<and> at_state t = Scanning \<and> getParam t = cs ! q)"
proof -
  let ?m = "length cs"
  let ?S0 = "replicate ?m ([] :: rat list)"
  have cs: "cs \<noteq> []"
    using assms(1) by (auto simp: Autotuner_construct_def split: if_splits)
  then have m: "0 < ?m" by simp
  have t0: "t0 = scan_state cs n p name sync 0 ?S0"
    using assms(1) construct_scan_state [OF cs, of n p name sync] by simp
  have len: "length (concat dss) = n * ?m"
    using assms(3,4)
  proof (induction dss arbitrary: cs)
    case Nil
    then show ?case by simp
  next
    case (Cons xs dss)
    then obtain c cs' where "cs = c # cs'" by (cases cs) auto
    with Cons.prems Cons.IH [of cs'] show ?case by simp
  qed
  have all: "run_pairs t0 (concat dss) =
         Inr (concat (map (\<lambda>j. replicate n (cs ! j)) [0 ..< 0 + length dss]),
              state_at cs n p name sync (0 + length dss)
                (take 0 ?S0 @ dss @ drop (0 + length dss) ?S0))"
    unfolding t0 using assms(2,3,4) m by (intro run_chunks) auto
  have probes: "map (\<lambda>j. replicate n (cs ! j)) [0 ..< ?m] = map (replicate n) cs"
    by (rule nth_equalityI) auto
  define t where "t = locked_state cs n p name sync (?m - 1) dss"
  have run: "run_pairs t0 (concat dss) = Inr (concat (map (replicate n) cs), t)"
    using all probes assms(3) by (simp add: state_at_def t_def)
  have locked: "at_state t = Locked"
    by (simp add: t_def locked_state_def)
  have "getParam t = arg_min_mean cs dss"
    by (simp add: t_def locked_state_def getParam_def)
  then have best: "\<exists>i < ?m. getParam t = cs ! i
        \<and> (\<forall>j < ?m. mean (dss ! i) < mean (dss ! j)
               \<or> (mean (dss ! i) = mean (dss ! j) \<and> cs ! i \<le> cs ! j))"
    using arg_min_mean_sound [OF cs assms(3)] by simp
  have scan: "\<forall>q < ?m. \<forall>r < n.
             \<exists>ps t. run_pairs t0 (concat (take q dss) @ take r (dss ! q)) = Inr (ps, t)
                   \<and> at_state t = Scanning \<and> getParam t = cs ! q"
  proof (intro allI impI)
    fix q r assume q: "q < ?m" and r: "r < n"
    let ?S = "take 0 ?S0 @ take q dss @ drop (0 + length (take q dss)) ?S0"
    have lq: "length (take q dss) = q"
      using q assms(3) by simp
    have front: "run_pairs t0 (concat (take q dss)) =
         Inr (concat (map (\<lambda>j. replicate n (cs ! j)) [0 ..< 0 + length (take q dss)]),
              state_at cs n p name sync (0 + length (take q dss)) ?S)"
      unfolding t0 using assms(2,3,4) m q by (intro run_chunks) (auto dest: in_set_takeD)
    have front': "run_pairs t0 (concat (take q dss)) =
         Inr (concat (map (\<lambda>j. replicate n (cs ! j)) [0 ..< 0 + length (take q dss)]),
              scan_state cs n p name sync q ?S)"
      using front q lq by (simp add: state_at_def)
    have Sq: "?S ! q = []" and lS: "q < length ?S"
      using q lq by (simp_all add: nth_append)
    have partial: "run_pairs (scan_state cs n p name sync q ?S) (take r (dss ! q)) =
         Inr (replicate (length (take r (dss ! q))) (cs ! q),
              scan_state cs n p name sync q (?S[q := ?S ! q @ take r (dss ! q)]))"
    proof (rule run_partial_chunk [OF lS])
      show "length (?S ! q) + length (take r (dss ! q)) < n"
        using r unfolding Sq by simp
    qed
    show "\<exists>ps t. run_pairs t0 (concat (take q dss) @ take r (dss ! q)) = Inr (ps, t)
                   \<and> at_state t = Scanning \<and> getParam t = cs ! q"
      using run_pairs_seq [OF front' partial]
      by (auto simp: scan_state_def getParam_def)
  qed
  from len run locked best scan show ?thesis by blast
qed

text \<open>
  The scenario of the claim: candidates 10, 20, 30, two samples each, durations
  5, 5, 3, 3, 9, 9. The six pairs probe 10, 10, 20, 20, 30, 30 and the tuner locks on 20.
\<close>

theorem autotuner_scenario_10_20_30:
  "\<exists>t0 t. Autotuner_construct [10, 20, 30] 2 100000 ''kernel'' False = Inr t0
        \<and> run_pairs t0 [5, 5, 3, 3, 9, 9] = Inr ([10, 10, 20, 20, 30, 30], t)
        \<and> at_state t = Locked \<and> getParam t = 20"
proof -
  let ?cs = "[10, 20, 30] :: u32 list"
  let ?dss = "[[5, 5], [3, 3], [9, 9]] :: rat list list"
  obtain t0 where t0: "Autotuner_construct ?cs 2 100000 ''kernel'' False = Inr t0"
    by (simp add: Autotuner_construct_def)
  have h: "(0::nat) < 2" "length ?dss = length ?cs" "\<forall>xs \<in> set ?dss. length xs = 2"
    by simp_all
  from autotuner_locks_on_min_mean [OF t0 h]
  obtain t i where run: "run_pairs t0 (concat ?dss) = Inr (concat (map (replicate 2) ?cs), t)"
    and locked: "at_state t = Locked"
    and i: "i < length ?cs" "getParam t = ?cs ! i"
    and least: "\<forall>j < length ?cs. mean (?dss ! i) < mean (?dss ! j)
                \<or> (mean (?dss ! i) = mean (?dss ! j) \<and> ?cs ! i \<le> ?cs ! j)"
    by blast
  from i(1) consider "i = 0" | "i = 1" | "i = 2"
    by (auto simp: less_Suc_eq numeral_3_eq_3)
  then have "i = 1"
  proof cases
    case 1
    with least [rule_format, of 1] show ?thesis by (simp add: mean_def)
  next
    case 2
    then show ?thesis .
  next
    case 3
    with least [rule_format, of 1] show ?thesis by (simp add: mean_def)
  qed
  with i(2) have "getParam t = 20" by simp
  moreover have "concat (map (replicate 2) ?cs) = [10, 10, 20, 20, 30, 30]"
    by (simp add: numeral_2_eq_2)
  ultimately show ?thesis
    using t0 run locked by auto
qed

section \<open>Properties of the candidate enumerations\<close>

lemma unat_pow2: "k < 32 \<Longrightarrow> unat ((2::u32) ^ k) = 2 ^ k"
proof -
  assume k: "k < 32"
  have lt: "(2::nat) ^ k < 2 ^ 32"
    using k by (rule power_strict_increasing) simp
  have "unat (word_of_nat (2 ^ k) :: u32) = 2 ^ k mod 2 ^ LENGTH(32)"
    by (rule unat_of_nat)
  also have "\<dots> = 2 ^ k"
    using lt by simp
  finally show ?thesis by simp
qed

lemma unat_of_nat_u32: "n < 2 ^ 32 \<Longrightarrow> unat (word_of_nat n :: u32) = n"
  by (simp add: unat_of_nat)

lemma pow2_from_rec: "k < 32 \<Longrightarrow> pow2_from k = 2 ^ k # pow2_from (Suc k)"
  unfolding pow2_from_def by (subst upt_rec) simp

lemma pow2_from_32: "pow2_from 32 = []"
  by (simp add: pow2_from_def)

lemma pow2_le_mono: "k \<le> j \<Longrightarrow> j < 32 \<Longrightarrow> (2::u32) ^ k \<le> 2 ^ j"
  by (simp add: word_le_nat_alt unat_pow2)

lemma in_pow2_from: "e \<in> set (pow2_from k) \<longleftrightarrow> (\<exists>j. k \<le> j \<and> j < 32 \<and> e = 2 ^ j)"
  by (auto simp: pow2_from_def)

lemma dpd_block_loop_closed:
  fixes ws :: u32
  defines "w \<equiv> unat ws"
  assumes "ws \<noteq> 0" "0 < j" "j * w \<le> 1024 + w"
  shows "dpd_block_loop ws tpps (word_of_nat (j * w)) acc =
         Some (acc @ concat (map (\<lambda>i. map (\<lambda>s. word_of_nat (i * w) * 10000 + s) tpps)
                              [j ..< Suc (1024 div w)]))"
  using assms(3,4)
proof (induction "Suc (1024 div w) - j" arbitrary: j acc)
  case 0
  then have big: "1024 div w < j" by simp
  have w0: "0 < w" using assms(2) by (simp add: w_def unat_gt_0)
  have gt: "1024 < j * w"
    using big w0 by (simp add: div_less_iff_less_mult)
  have "w < 2 ^ 32" unfolding w_def using unsigned_less [of ws] by simp
  have small: "j * w < 2 ^ 32"
  proof (cases "j = 1")
    case True
    with \<open>w < 2 ^ 32\<close> show ?thesis by simp
  next
    case False
    with 0 have "2 \<le> j" by simp
    then have a: "2 * w \<le> j * w" by (rule mult_le_mono1)
    have b: "j * w \<le> 1024 + w" by fact
    from a b have "w \<le> 1024" by linarith
    with b have "j * w \<le> 2048" by linarith
    then show ?thesis by simp
  qed
  have "\<not> (word_of_nat (j * w) :: u32) \<le> 1024"
    using gt small by (simp add: word_le_nat_alt unat_of_nat_u32 del: of_nat_mult)
  moreover have "[j ..< Suc (1024 div w)] = []"
    using big by simp
  ultimately show ?case
    by (subst dpd_block_loop.simps) simp
next
  case (Suc d)
  then have le: "j \<le> 1024 div w" by simp
  have w0: "0 < w" using assms(2) by (simp add: w_def unat_gt_0)
  have jw: "j * w \<le> 1024"
    using le w0 by (simp add: less_eq_div_iff_mult_less_eq)
  then have cond: "(word_of_nat (j * w) :: u32) \<le> 1024"
    by (simp add: word_le_nat_alt unat_of_nat_u32 del: of_nat_mult)
  have next_bs: "(word_of_nat (j * w) :: u32) + ws = word_of_nat (Suc j * w)"
    by (simp add: w_def add.commute)
  have IH: "dpd_block_loop ws tpps (word_of_nat (Suc j * w)) acc' =
         Some (acc' @ concat (map (\<lambda>i. map (\<lambda>s. word_of_nat (i * w) * 10000 + s) tpps)
                              [Suc j ..< Suc (1024 div w)]))" for acc'
    using Suc.hyps(2) jw by (intro Suc.hyps(1)) auto
  have idx: "[j ..< Suc (1024 div w)] = j # [Suc j ..< Suc (1024 div w)]"
    using le by (subst upt_rec) simp
  show ?case
    by (subst dpd_block_loop.simps) (simp only: cond if_True next_bs IH idx, simp)
qed


lemma dpd_valid_params_closed:
  assumes "ws \<noteq> 0"
  shows "dpd_valid_params ws tpps =
         Some (concat (map (\<lambda>i. map (\<lambda>s. word_of_nat (i * unat ws) * 10000 + s) tpps)
                              [1 ..< Suc (1024 div unat ws)]))"
  using dpd_block_loop_closed [OF assms, of 1 tpps "[]"]
  by (simp add: dpd_valid_params_def)

lemma dpd_block_loop_diverges:
  assumes "dpd_block_loop ws tpps bs acc = Some r"
  shows "\<not> (ws = 0 \<and> bs \<le> 1024)"
proof (rule dpd_block_loop.raw_induct
    [where P = "\<lambda>ws tpps bs acc r. \<not> (ws = 0 \<and> bs \<le> 1024)", OF _ assms])
  fix f :: "u32 \<Rightarrow> u32 list \<Rightarrow> u32 \<Rightarrow> u32 list \<Rightarrow> u32 list option"
    and ws bs :: u32 and tpps acc r :: "u32 list"
  assume IH: "\<And>ws tpps bs acc r. f ws tpps bs acc = Some r \<Longrightarrow> \<not> (ws = 0 \<and> bs \<le> 1024)"
    and step: "(if bs \<le> 1024
         then f ws tpps (bs + ws) (acc @ map (\<lambda>s. bs * 10000 + s) tpps)
         else Some acc) = Some r"
  show "\<not> (ws = 0 \<and> bs \<le> 1024)"
  proof
    assume a: "ws = 0 \<and> bs \<le> 1024"
    with step have "f ws tpps (bs + ws) (acc @ map (\<lambda>s. bs * 10000 + s) tpps) = Some r"
      by simp
    from IH [OF this] a show False by simp
  qed
qed

lemma dpd_valid_params_zero_warp: "dpd_valid_params 0 tpps = None"
proof (cases "dpd_valid_params 0 tpps")
  case None
  then show ?thesis .
next
  case (Some r)
  then show ?thesis
    using dpd_block_loop_diverges [of 0 tpps 0 "[]" r] by (simp add: dpd_valid_params_def)
qed


lemma block_size_multiples:
  fixes ws bs :: u32
  assumes "ws \<noteq> 0"
  shows "(\<exists>i. 1 \<le> i \<and> i \<le> 1024 div unat ws \<and> bs = word_of_nat (i * unat ws))
         \<longleftrightarrow> bs \<noteq> 0 \<and> unat ws dvd unat bs \<and> bs \<le> 1024"
proof
  let ?w = "unat ws"
  have w0: "0 < ?w" using assms by (simp add: unat_gt_0)
  {
    assume "\<exists>i. 1 \<le> i \<and> i \<le> 1024 div ?w \<and> bs = word_of_nat (i * ?w)"
    then obtain i where i: "1 \<le> i" "i \<le> 1024 div ?w" "bs = word_of_nat (i * ?w)" by blast
    have le: "i * ?w \<le> 1024"
      using i(2) w0 by (simp add: less_eq_div_iff_mult_less_eq)
    then have u: "unat bs = i * ?w"
      unfolding i(3) by (intro unat_of_nat_u32) simp
    have "0 < i * ?w" using i(1) w0 by simp
    with u le show "bs \<noteq> 0 \<and> ?w dvd unat bs \<and> bs \<le> 1024"
      by (auto simp: word_le_nat_alt simp flip: unat_eq_0)
  }
  {
    assume a: "bs \<noteq> 0 \<and> ?w dvd unat bs \<and> bs \<le> 1024"
    then obtain i where i: "unat bs = i * ?w"
      by (auto simp: dvd_def mult.commute)
    have pos: "0 < unat bs" using a by (simp add: unat_gt_0)
    have le: "unat bs \<le> 1024" using a by (simp add: word_le_nat_alt)
    have "1 \<le> i" using pos i by (cases i) auto
    moreover have "i \<le> 1024 div ?w"
      using le i w0 by (simp add: less_eq_div_iff_mult_less_eq)
    moreover have "bs = word_of_nat (unat bs)"
      by simp
    then have "bs = word_of_nat (i * ?w)"
      unfolding i .
    ultimately show "\<exists>i. 1 \<le> i \<and> i \<le> 1024 div ?w \<and> bs = word_of_nat (i * ?w)"
      by blast
  }
qed

lemma decode_encode:
  fixes bs tpp :: u32
  assumes "bs \<le> 1024" "tpp < 10000"
  shows "(bs * 10000 + tpp) div 10000 = bs"
    and "(bs * 10000 + tpp) mod 10000 = tpp"
proof -
  have b: "unat bs \<le> 1024" using assms(1) by (simp add: word_le_nat_alt)
  have t: "unat tpp < 10000" using assms(2) by (simp add: word_less_nat_alt)
  have m: "unat (bs * 10000) = unat bs * 10000"
    using b by (subst unat_mult_lem [THEN iffD1]) simp_all
  have k: "unat (bs * 10000 + tpp) = unat bs * 10000 + unat tpp"
    using b t m by (subst unat_add_lem [THEN iffD1]) simp_all
  have "unat ((bs * 10000 + tpp) div 10000) = unat bs"
    using t by (simp add: unat_div k)
  then show "(bs * 10000 + tpp) div 10000 = bs"
    by (simp add: word_unat_eq_iff)
  have "unat ((bs * 10000 + tpp) mod 10000) = unat tpp"
    using t by (simp add: unat_mod k)
  then show "(bs * 10000 + tpp) mod 10000 = tpp"
    by (simp add: word_unat_eq_iff)
qed

lemma in_concat_map:
  "x \<in> set (concat (map (\<lambda>i. map (g i) ys) js)) \<longleftrightarrow> (\<exists>i \<in> set js. \<exists>y \<in> set ys. x = g i y)"
  by auto

lemma in_upt_from_1: "i \<in> set [1 ..< Suc n] \<longleftrightarrow> 1 \<le> i \<and> i \<le> n"
  by auto

lemma dpd_valid_params_keys:
  assumes "ws \<noteq> 0"
  shows "\<exists>ps. dpd_valid_params ws tpps = Some ps \<and>
           (\<forall>key. key \<in> set ps \<longleftrightarrow>
              (\<exists>bs tpp. key = bs * 10000 + tpp \<and> bs \<noteq> 0 \<and> unat ws dvd unat bs
                    \<and> bs \<le> 1024 \<and> tpp \<in> set tpps))"
proof -
  let ?ps = "concat (map (\<lambda>i. map (\<lambda>s. word_of_nat (i * unat ws) * 10000 + s) tpps)
                              [1 ..< Suc (1024 div unat ws)])"
  have "key \<in> set ?ps \<longleftrightarrow>
              (\<exists>bs tpp. key = bs * 10000 + tpp \<and> bs \<noteq> 0 \<and> unat ws dvd unat bs
                    \<and> bs \<le> 1024 \<and> tpp \<in> set tpps)" for key
  proof -
    have "key \<in> set ?ps \<longleftrightarrow>
        (\<exists>bs tpp. key = bs * 10000 + tpp
            \<and> (\<exists>i. 1 \<le> i \<and> i \<le> 1024 div unat ws \<and> bs = word_of_nat (i * unat ws))
            \<and> tpp \<in> set tpps)"
      unfolding in_concat_map Bex_def in_upt_from_1 by blast
    then show ?thesis
      unfolding block_size_multiples [OF assms] by blast
  qed
  then show ?thesis
    using dpd_valid_params_closed [OF assms, of tpps] by blast
qed

lemma filter_pow2_above:
  assumes "k < 32" "\<not> (2::u32) ^ k \<le> ws"
  shows "filter (\<lambda>e. e \<le> ws) (pow2_from k) = []"
proof -
  have "\<not> e \<le> ws" if "e \<in> set (pow2_from k)" for e
  proof -
    from that obtain j where j: "k \<le> j" "j < 32" "e = 2 ^ j"
      by (auto simp: in_pow2_from)
    then have "(2::u32) ^ k \<le> e" by (simp add: pow2_le_mono)
    with assms(2) show ?thesis by auto
  qed
  then show ?thesis by (simp add: filter_empty_conv)
qed

lemma et_loop_closed:
  assumes "unat ws < 2 ^ 31"
    and "\<forall>e \<in> set (pow2_from 0). e \<le> ws \<longrightarrow> gs * e \<noteq> 0"
    and "k < 32"
  shows "et_loop ws clb gs (2 ^ k) acc = Some (Inr (acc @ et_keys ws clb gs k))"
  using assms(3)
proof (induction "31 - k" arbitrary: k acc)
  case 0
  then have k: "k = 31" by simp
  have "\<not> (2::u32) ^ 31 \<le> ws"
    using assms(1) by (simp add: word_le_nat_alt unat_pow2)
  then show ?case
    unfolding k et_keys_def
    by (subst et_loop.simps) (simp add: filter_pow2_above)
next
  case (Suc d)
  then have k: "k < 31" by simp
  show ?case
  proof (cases "(2::u32) ^ k \<le> ws")
    case True
    have mem: "(2::u32) ^ k \<in> set (pow2_from 0)"
      using Suc.prems by (auto simp: in_pow2_from)
    have nz: "gs * 2 ^ k \<noteq> 0"
      using assms(2) mem True by blast
    have IH: "et_loop ws clb gs (2 ^ Suc k) acc' = Some (Inr (acc' @ et_keys ws clb gs (Suc k)))"
      for acc'
      using Suc.hyps(2) k by (intro Suc.hyps(1)) auto
    have keys: "et_keys ws clb gs k =
        (if clb mod (gs * 2 ^ k) = 0 then [clb * 1000000 + gs * 100 + 2 ^ k] else [])
        @ et_keys ws clb gs (Suc k)"
      using True Suc.prems by (simp add: et_keys_def pow2_from_rec)
    have dbl: "(2::u32) ^ k * 2 = 2 ^ Suc k" by simp
    show ?thesis
      by (subst et_loop.simps) (simp only: True nz if_True if_False dbl IH keys, simp)
  next
    case False
    then show ?thesis
      unfolding et_keys_def using Suc.prems
      by (subst et_loop.simps) (simp add: filter_pow2_above)
  qed
qed


lemma gs_loop_closed:
  assumes "unat ws < 2 ^ 31" "unat clb < 2 ^ 31"
    and "\<forall>g \<in> set (pow2_from 0). g \<le> clb \<longrightarrow>
           (\<forall>e \<in> set (pow2_from 0). e \<le> ws \<longrightarrow> g * e \<noteq> 0)"
    and "k < 32"
  shows "gs_loop ws clb (2 ^ k) acc = Some (Inr (acc @ gs_keys ws clb k))"
  using assms(4)
proof (induction "31 - k" arbitrary: k acc)
  case 0
  then have k: "k = 31" by simp
  have "\<not> (2::u32) ^ 31 \<le> clb"
    using assms(2) by (simp add: word_le_nat_alt unat_pow2)
  then show ?case
    unfolding k gs_keys_def
    by (subst gs_loop.simps) (simp add: filter_pow2_above)
next
  case (Suc d)
  then have k: "k < 31" by simp
  show ?case
  proof (cases "(2::u32) ^ k \<le> clb")
    case True
    have mem: "(2::u32) ^ k \<in> set (pow2_from 0)"
      using Suc.prems by (auto simp: in_pow2_from)
    have nz: "\<forall>e \<in> set (pow2_from 0). e \<le> ws \<longrightarrow> 2 ^ k * e \<noteq> 0"
      using assms(3) mem True by blast
    have inner: "et_loop ws clb (2 ^ k) 1 acc = Some (Inr (acc @ et_keys ws clb (2 ^ k) 0))"
      using et_loop_closed [OF assms(1) nz, of 0 clb acc] by simp
    have IH: "gs_loop ws clb (2 ^ Suc k) acc' = Some (Inr (acc' @ gs_keys ws clb (Suc k)))"
      for acc'
      using Suc.hyps(2) k by (intro Suc.hyps(1)) auto
    have keys: "gs_keys ws clb k = et_keys ws clb (2 ^ k) 0 @ gs_keys ws clb (Suc k)"
      using True Suc.prems by (simp add: gs_keys_def pow2_from_rec)
    have dbl: "(2::u32) ^ k * 2 = 2 ^ Suc k" by simp
    show ?thesis
      by (subst gs_loop.simps) (simp only: True if_True inner option.case sum.case dbl IH keys, simp)
  next
    case False
    then show ?thesis
      unfolding gs_keys_def using Suc.prems
      by (subst gs_loop.simps) (simp add: filter_pow2_above)
  qed
qed

lemma le_mult_left: "1 \<le> (a::nat) \<Longrightarrow> b \<le> a * b"
  by (cases a) auto

lemma le_mult_right: "1 \<le> (b::nat) \<Longrightarrow> a \<le> a * b"
  by (cases b) auto

lemma pow2_pos: "e \<in> set (pow2_from 0) \<Longrightarrow> 0 < unat e"
  by (auto simp: in_pow2_from unat_pow2)

lemma product_no_wrap:
  assumes "launch_bound_ok ws clb" "g \<le> clb" "e \<le> ws"
  shows "unat (g * e) = unat g * unat e"
proof -
  have "unat g * unat e \<le> unat clb * unat ws"
    using assms(2,3) by (simp add: word_le_nat_alt mult_le_mono)
  also have "\<dots> < 2 ^ 31"
    using assms(1) by (simp add: launch_bound_ok_def)
  finally have "unat g * unat e < 2 ^ LENGTH(32)" by simp
  then show ?thesis by (simp only: unat_mult_lem)
qed

lemma gs_loop_ok:
  assumes "ws \<noteq> 0" "launch_bound_ok ws clb"
  shows "gs_loop ws clb 1 acc = Some (Inr (acc @ gs_keys ws clb 0))"
proof -
  have w1: "1 \<le> unat ws" using assms(1) by (simp add: Suc_le_eq unat_gt_0)
  have c1: "1 \<le> unat clb" using assms(2) by (simp add: launch_bound_ok_def Suc_le_eq unat_gt_0)
  have p: "unat clb * unat ws < 2 ^ 31" using assms(2) by (simp add: launch_bound_ok_def)
  have "unat ws \<le> unat clb * unat ws" using c1 by (rule le_mult_left)
  from this p have a: "unat ws < 2 ^ 31" by (rule le_less_trans)
  have "unat clb \<le> unat clb * unat ws" using w1 by (rule le_mult_right)
  from this p have b: "unat clb < 2 ^ 31" by (rule le_less_trans)
  have nz: "\<forall>g \<in> set (pow2_from 0). g \<le> clb \<longrightarrow>
           (\<forall>e \<in> set (pow2_from 0). e \<le> ws \<longrightarrow> g * e \<noteq> 0)"
  proof (intro ballI impI)
    fix g e assume g: "g \<in> set (pow2_from 0)" "g \<le> clb"
      and e: "e \<in> set (pow2_from 0)" "e \<le> ws"
    have "unat (g * e) = unat g * unat e"
      by (rule product_no_wrap [OF assms(2) g(2) e(2)])
    moreover have "0 < unat g * unat e"
      using pow2_pos [OF g(1)] pow2_pos [OF e(1)] by simp
    ultimately show "g * e \<noteq> 0"
      by (metis less_numeral_extra(3) unat_0)
  qed
  show ?thesis
    using gs_loop_closed [OF a b nz, of 0 acc] by simp
qed

lemma jit_bounds_loop_ok:
  assumes "ws \<noteq> 0" "\<forall>clb \<in> set lbs. launch_bound_ok ws clb"
  shows "jit_bounds_loop ws lbs acc =
         Some (Inr (acc @ concat (map (\<lambda>clb. gs_keys ws clb 0) lbs)))"
  using assms(2)
proof (induction lbs arbitrary: acc)
  case Nil
  then show ?case by simp
next
  case (Cons clb lbs)
  then show ?case
    by (simp add: gs_loop_ok [OF assms(1)])
qed

lemma in_gs_keys:
  "key \<in> set (gs_keys ws clb 0) \<longleftrightarrow>
     (\<exists>g e. key = clb * 1000000 + g * 100 + e \<and> is_pow2 g \<and> g \<le> clb \<and> is_pow2 e
          \<and> e \<le> ws \<and> divides_launch_bound clb g e)"
proof -
  have inner: "key \<in> set (et_keys ws clb g 0) \<longleftrightarrow>
      (\<exists>e. key = clb * 1000000 + g * 100 + e \<and> e \<in> set (pow2_from 0) \<and> e \<le> ws
          \<and> divides_launch_bound clb g e)" for g
    unfolding et_keys_def set_map set_filter image_iff Bex_def mem_Collect_eq
      divides_launch_bound_def [symmetric]
    by blast
  have "key \<in> set (gs_keys ws clb 0) \<longleftrightarrow>
      (\<exists>g. g \<in> set (pow2_from 0) \<and> g \<le> clb \<and> key \<in> set (et_keys ws clb g 0))"
    unfolding gs_keys_def set_concat set_map set_filter UN_iff Bex_def image_iff mem_Collect_eq
    by blast
  then show ?thesis
    unfolding inner is_pow2_def by blast
qed

lemma divides_iff:
  assumes "launch_bound_ok ws clb" "is_pow2 g" "is_pow2 e" "e \<le> ws"
  shows "g \<le> clb \<and> divides_launch_bound clb g e \<longleftrightarrow> unat g * unat e dvd unat clb"
  unfolding divides_launch_bound_def
proof
  assume a: "g \<le> clb \<and> clb mod (g * e) = 0"
  then have "unat (g * e) = unat g * unat e"
    using product_no_wrap [OF assms(1) _ assms(4)] by simp
  moreover have "unat (clb mod (g * e)) = 0"
    using a by simp
  ultimately show "unat g * unat e dvd unat clb"
    by (simp add: unat_mod mod_eq_0_iff_dvd)
next
  assume d: "unat g * unat e dvd unat clb"
  have c: "0 < unat clb"
    using assms(1) by (simp add: launch_bound_ok_def unat_gt_0)
  have e1: "1 \<le> unat e"
    using pow2_pos [of e] assms(3) by (simp add: is_pow2_def Suc_le_eq)
  have "unat g * unat e \<le> unat clb"
    using d c by (rule dvd_imp_le)
  moreover have "unat g \<le> unat g * unat e"
    using e1 by (rule le_mult_right)
  ultimately have "unat g \<le> unat clb"
    by (rule order_trans [rotated])
  then have g: "g \<le> clb"
    by (simp add: word_le_nat_alt)
  have m: "unat (g * e) = unat g * unat e"
    by (rule product_no_wrap [OF assms(1) g assms(4)])
  have "unat (clb mod (g * e)) = 0"
    using d by (simp add: unat_mod m)
  then have "clb mod (g * e) = 0"
    by (simp add: unat_eq_0)
  with g show "g \<le> clb \<and> clb mod (g * e) = 0" by simp
qed

lemma in_gs_keys_dvd:
  assumes "launch_bound_ok ws clb"
  shows "key \<in> set (gs_keys ws clb 0) \<longleftrightarrow>
     (\<exists>g e. key = clb * 1000000 + g * 100 + e \<and> is_pow2 g \<and> is_pow2 e \<and> e \<le> ws
          \<and> unat g * unat e dvd unat clb)"
proof
  assume "key \<in> set (gs_keys ws clb 0)"
  then obtain g e where k: "key = clb * 1000000 + g * 100 + e" "is_pow2 g" "is_pow2 e" "e \<le> ws"
    and c: "g \<le> clb \<and> divides_launch_bound clb g e"
    unfolding in_gs_keys by blast
  from c have "unat g * unat e dvd unat clb"
    by (simp only: divides_iff [OF assms k(2,3,4)])
  with k show "\<exists>g e. key = clb * 1000000 + g * 100 + e \<and> is_pow2 g \<and> is_pow2 e \<and> e \<le> ws
          \<and> unat g * unat e dvd unat clb"
    by blast
next
  assume "\<exists>g e. key = clb * 1000000 + g * 100 + e \<and> is_pow2 g \<and> is_pow2 e \<and> e \<le> ws
          \<and> unat g * unat e dvd unat clb"
  then obtain g e where k: "key = clb * 1000000 + g * 100 + e" "is_pow2 g" "is_pow2 e" "e \<le> ws"
    and d: "unat g * unat e dvd unat clb"
    by blast
  from d have "g \<le> clb \<and> divides_launch_bound clb g e"
    by (simp only: divides_iff [OF assms k(2,3,4)])
  with k show "key \<in> set (gs_keys ws clb 0)"
    unfolding in_gs_keys by blast
qed

lemma jit_valid_params_keys:
  assumes "ws \<noteq> 0" "\<forall>clb \<in> set lbs. launch_bound_ok ws clb"
  shows "\<exists>qs. jit_valid_params ws lbs = Some (Inr qs) \<and>
           (\<forall>key. key \<in> set qs \<longleftrightarrow>
              (\<exists>clb g e. key = clb * 1000000 + g * 100 + e \<and> clb \<in> set lbs
                    \<and> is_pow2 g \<and> is_pow2 e \<and> e \<le> ws
                    \<and> unat g * unat e dvd unat clb))"
proof -
  let ?qs = "concat (map (\<lambda>clb. gs_keys ws clb 0) lbs)"
  have run: "jit_valid_params ws lbs = Some (Inr ?qs)"
    using jit_bounds_loop_ok [OF assms, of "[]"] by (simp add: jit_valid_params_def)
  have "key \<in> set ?qs \<longleftrightarrow>
              (\<exists>clb g e. key = clb * 1000000 + g * 100 + e \<and> clb \<in> set lbs
                    \<and> is_pow2 g \<and> is_pow2 e \<and> e \<le> ws
                    \<and> unat g * unat e dvd unat clb)" for key
  proof -
    have "key \<in> set ?qs \<longleftrightarrow> (\<exists>clb \<in> set lbs. key \<in> set (gs_keys ws clb 0))"
      by auto
    also have "\<dots> \<longleftrightarrow> (\<exists>clb \<in> set lbs. \<exists>g e. key = clb * 1000000 + g * 100 + e
          \<and> is_pow2 g \<and> is_pow2 e \<and> e \<le> ws \<and> unat g * unat e dvd unat clb)"
      using assms(2) by (intro bex_cong refl in_gs_keys_dvd) blast
    finally show ?thesis by blast
  qed
  with run show ?thesis by blast
qed

section \<open>Properties of the constructors\<close>

lemma dpd_new_candidates:
  assumes "PotentialPairDPDThermoGPU_new ec mode getTpp name dec = Some (Inr obj)"
  shows "dpd_valid_params (warpSize ec) (getTpp (warpSize ec)) = Some (at_candidates (m_tuner obj))"
    and "at_nsamples (m_tuner obj) = 5" and "at_period (m_tuner obj) = 100000"
    and "m_param obj = 0"
  using assms
  by (auto simp: PotentialPairDPDThermoGPU_new_def Autotuner_construct_def setSync_def Let_def
      split: if_splits option.splits sum.splits)

lemma jit_new_candidates:
  assumes "PatchEnergyJITUnionGPU_new ec lbs types bt bp bo bd bc btree dtree = Some (Inr j)"
  shows "jit_valid_params (warpSize ec) lbs = Some (Inr (at_candidates (m_tuner_narrow_patch j)))"
    and "at_nsamples (m_tuner_narrow_patch j) = 5"
    and "at_period (m_tuner_narrow_patch j) = 100000"
  using assms
  by (auto simp: PatchEnergyJITUnionGPU_new_def Autotuner_construct_def Let_def
      split: if_splits option.splits sum.splits)

lemma dpd_new_succeeds:
  assumes "isCUDAEnabled ec"
    and "dpd_valid_params (warpSize ec) (getTpp (warpSize ec)) = Some ps" and "key \<in> set ps"
  shows "\<exists>obj. PotentialPairDPDThermoGPU_new ec mode getTpp name dec = Some (Inr obj)"
  using assms
  by (auto simp: PotentialPairDPDThermoGPU_new_def Autotuner_construct_def Let_def)

lemma jit_new_succeeds:
  assumes "jit_valid_params (warpSize ec) lbs = Some (Inr qs)" and "key \<in> set qs"
  shows "\<exists>j. PatchEnergyJITUnionGPU_new ec lbs types bt bp bo bd bc btree dtree = Some (Inr j)"
  using assms
  by (auto simp: PatchEnergyJITUnionGPU_new_def Autotuner_construct_def Let_def)

lemma pow2_upto_32: "filter (\<lambda>e. e \<le> 32) (pow2_from 0) = [1, 2, 4, 8, 16, 32]"
  by code_simp

lemma tpp_list_warp_32:
  "set [4, 8, 16, 32, 1, 2] = {s. is_pow2 s \<and> s \<le> (32 :: u32)}"
proof -
  have "{s. is_pow2 s \<and> s \<le> (32 :: u32)} = set (filter (\<lambda>e. e \<le> 32) (pow2_from 0))"
    by (auto simp: is_pow2_def)
  then show ?thesis
    unfolding pow2_upto_32 by auto
qed

lemma is_pow2_examples: "is_pow2 1" "is_pow2 2" "is_pow2 4" "is_pow2 32" "is_pow2 64"
  unfolding is_pow2_def by code_simp+

lemma not_pow2_3: "\<not> is_pow2 3"
  unfolding is_pow2_def by code_simp

lemma dpd_params_warp_32:
  "\<exists>ps. dpd_valid_params 32 [4, 8, 16, 32, 1, 2] = Some ps \<and> 64 * 10000 + 4 \<in> set ps"
proof -
  obtain ps where ps: "dpd_valid_params 32 [4, 8, 16, 32, 1, 2] = Some ps"
    and pkeys: "\<forall>key. key \<in> set ps \<longleftrightarrow>
                  (\<exists>bs tpp. key = bs * 10000 + tpp \<and> bs \<noteq> 0
                      \<and> unat (32 :: u32) dvd unat bs \<and> bs \<le> 1024
                      \<and> tpp \<in> set [4, 8, 16, 32, 1, 2])"
    using dpd_valid_params_keys [of 32 "[4, 8, 16, 32, 1, 2]"] by auto
  have "(64 :: u32) \<noteq> 0 \<and> unat (32 :: u32) dvd unat (64 :: u32) \<and> (64 :: u32) \<le> 1024
      \<and> (4 :: u32) \<in> set [4, 8, 16, 32, 1, 2]"
    by simp
  then have "64 * 10000 + 4 \<in> set ps"
    unfolding pkeys [rule_format] by blast
  with ps show ?thesis by blast
qed

lemma jit_params_warp_32:
  "\<exists>qs. jit_valid_params 32 [64, 128] = Some (Inr qs) \<and> 128 * 1000000 + 4 * 100 + 32 \<in> set qs"
proof -
  have ok: "\<forall>clb \<in> set [64, 128]. launch_bound_ok 32 clb"
    by (simp add: launch_bound_ok_def)
  obtain qs where qs: "jit_valid_params 32 [64, 128] = Some (Inr qs)"
    and qkeys: "\<forall>key. key \<in> set qs \<longleftrightarrow>
                  (\<exists>clb g e. key = clb * 1000000 + g * 100 + e \<and> clb \<in> set [64, 128]
                      \<and> is_pow2 g \<and> is_pow2 e \<and> e \<le> 32
                      \<and> unat g * unat e dvd unat clb)"
    using jit_valid_params_keys [OF _ ok] by auto
  have "(128 :: u32) \<in> set [64, 128] \<and> is_pow2 4 \<and> is_pow2 32 \<and> (32 :: u32) \<le> 32
      \<and> unat (4 :: u32) * unat (32 :: u32) dvd unat (128 :: u32)"
    using is_pow2_examples by simp
  then have "128 * 1000000 + 4 * 100 + 32 \<in> set qs"
    unfolding qkeys [rule_format] by blast
  with qs show ?thesis by blast
qed

text \<open>
  Claim C5, as amended. Let the warp size be positive, let
  \<^verbatim>\<open>Autotuner::getTppListPow2(warpSize)\<close> return exactly the powers of two that do
  not exceed the warp size, and let every launch bound the compiled module reports be
  positive with bound times warp size below \<open>2 ^ 31\<close> (no 32-bit operation of the
  loops wraps around). Then both enumerations end, and in 32-bit unsigned arithmetic:
  a key is given to the pair tuner if and only if it is \<open>block_size * 10000 + tpp\<close>
  with \<open>block_size\<close> a positive multiple of the warp size not exceeding 1024 and
  \<open>tpp\<close> a power of two not exceeding the warp size; a key is given to the
  narrow-phase tuner if and only if it is
  \<open>bounds * 1000000 + group_size * 100 + eval_threads\<close> with \<open>bounds\<close> a reported
  launch bound, \<open>group_size\<close> and \<open>eval_threads\<close> powers of two, \<open>eval_threads\<close>
  not exceeding the warp size and \<open>group_size * eval_threads\<close> dividing \<open>bounds\<close>.
  Each constructor that returns has handed exactly this list to its tuner.
\<close>

theorem candidate_domains:
  assumes "warpSize ec \<noteq> 0"
    and "set (getTpp (warpSize ec)) = {s. is_pow2 s \<and> s \<le> warpSize ec}"
    and "\<forall>clb \<in> set lbs. clb \<noteq> 0 \<and> unat clb * unat (warpSize ec) < 2 ^ 31"
  shows "(\<exists>ps. dpd_valid_params (warpSize ec) (getTpp (warpSize ec)) = Some ps
            \<and> (\<forall>key. key \<in> set ps \<longleftrightarrow>
                  (\<exists>bs tpp. key = bs * 10000 + tpp \<and> bs \<noteq> 0
                      \<and> unat (warpSize ec) dvd unat bs \<and> bs \<le> 1024
                      \<and> is_pow2 tpp \<and> tpp \<le> warpSize ec)))
       \<and> (\<exists>qs. jit_valid_params (warpSize ec) lbs = Some (Inr qs)
            \<and> (\<forall>key. key \<in> set qs \<longleftrightarrow>
                  (\<exists>clb g e. key = clb * 1000000 + g * 100 + e \<and> clb \<in> set lbs
                      \<and> is_pow2 g \<and> is_pow2 e \<and> e \<le> warpSize ec
                      \<and> unat g * unat e dvd unat clb)))
       \<and> (\<forall>obj. PotentialPairDPDThermoGPU_new ec mode getTpp name dec = Some (Inr obj)
              \<longrightarrow> dpd_valid_params (warpSize ec) (getTpp (warpSize ec))
                    = Some (at_candidates (m_tuner obj)))
       \<and> (\<forall>j. PatchEnergyJITUnionGPU_new ec lbs types bt bp bo bd bc btree dtree = Some (Inr j)
              \<longrightarrow> jit_valid_params (warpSize ec) lbs
                    = Some (Inr (at_candidates (m_tuner_narrow_patch j))))"
proof -
  let ?ws = "warpSize ec"
  have dpd: "\<exists>ps. dpd_valid_params ?ws (getTpp ?ws) = Some ps
            \<and> (\<forall>key. key \<in> set ps \<longleftrightarrow>
                  (\<exists>bs tpp. key = bs * 10000 + tpp \<and> bs \<noteq> 0
                      \<and> unat ?ws dvd unat bs \<and> bs \<le> 1024
                      \<and> is_pow2 tpp \<and> tpp \<le> ?ws))"
    using dpd_valid_params_keys [OF assms(1), of "getTpp ?ws"] unfolding assms(2) by simp
  have ok: "\<forall>clb \<in> set lbs. launch_bound_ok ?ws clb"
    using assms(3) by (simp add: launch_bound_ok_def)
  note jit = jit_valid_params_keys [OF assms(1) ok]
  from dpd jit show ?thesis
    using dpd_new_candidates(1) [of ec mode getTpp name dec]
      jit_new_candidates(1) [of ec lbs types bt bp bo bd bc btree dtree]
    by blast
qed

text \<open>
  At warp size 32 with launch bounds 64 and 128: the key of block size 64 with 4
  threads per particle is a candidate, block size 64 with 3 threads is not, and the key
  of bound 128 with group size 4 and 32 evaluation threads is a candidate.
\<close>

theorem candidate_domains_warp_32:
  "(\<exists>ps. dpd_valid_params 32 [4, 8, 16, 32, 1, 2] = Some ps
        \<and> 64 * 10000 + 4 \<in> set ps \<and> 64 * 10000 + 3 \<notin> set ps)
   \<and> (\<exists>qs. jit_valid_params 32 [64, 128] = Some (Inr qs)
        \<and> 128 * 1000000 + 4 * 100 + 32 \<in> set qs)"
proof -
  let ?ec = "\<lparr> isCUDAEnabled = True, isCUDAErrorCheckingEnabled = False, warpSize = 32 \<rparr>"
  let ?getTpp = "\<lambda>ws :: u32. [4, 8, 16, 32, 1, 2] :: u32 list"
  let ?lbs = "[64, 128] :: u32 list"
  have h1: "warpSize ?ec \<noteq> 0" by simp
  have h2: "set (?getTpp (warpSize ?ec)) = {s. is_pow2 s \<and> s \<le> warpSize ?ec}"
    using tpp_list_warp_32 by simp
  have h3: "\<forall>clb \<in> set ?lbs. clb \<noteq> 0 \<and> unat clb * unat (warpSize ?ec) < 2 ^ 31"
    by simp
  note cd = candidate_domains [OF h1 h2 h3, where mode = full and name = "''dpd''"
      and dec = False and types = "[]" and bt = no_constituents and bp = no_constituents
      and bo = no_constituents and bd = no_constituents and bc = no_constituents
      and btree = "\<lambda>_. ()" and dtree = "()"]
  from cd [THEN conjunct1]
  obtain ps where ps: "dpd_valid_params 32 [4, 8, 16, 32, 1, 2] = Some ps"
    and pkeys: "\<forall>key. key \<in> set ps \<longleftrightarrow>
                  (\<exists>bs tpp. key = bs * 10000 + tpp \<and> bs \<noteq> 0
                      \<and> unat (32 :: u32) dvd unat bs \<and> bs \<le> 1024
                      \<and> is_pow2 tpp \<and> tpp \<le> 32)"
    by auto
  from cd [THEN conjunct2, THEN conjunct1]
  obtain qs where qs: "jit_valid_params 32 ?lbs = Some (Inr qs)"
    and qkeys: "\<forall>key. key \<in> set qs \<longleftrightarrow>
                  (\<exists>clb g e. key = clb * 1000000 + g * 100 + e \<and> clb \<in> set ?lbs
                      \<and> is_pow2 g \<and> is_pow2 e \<and> e \<le> 32
                      \<and> unat g * unat e dvd unat clb)"
    by auto
  have "(64 :: u32) \<noteq> 0 \<and> unat (32 :: u32) dvd unat (64 :: u32) \<and> (64 :: u32) \<le> 1024
      \<and> is_pow2 4 \<and> (4 :: u32) \<le> 32"
    using is_pow2_examples by simp
  then have in_ps: "64 * 10000 + 4 \<in> set ps"
    unfolding pkeys [rule_format] by blast
  have out_ps: "64 * 10000 + 3 \<notin> set ps"
  proof
    assume "64 * 10000 + 3 \<in> set ps"
    then obtain bs tpp where k: "(64 * 10000 + 3 :: u32) = bs * 10000 + tpp" "bs \<le> 1024"
        "is_pow2 tpp" "tpp \<le> 32"
      unfolding pkeys [rule_format] by blast
    have "tpp < 10000" using k(4) by (simp add: word_less_nat_alt word_le_nat_alt)
    from decode_encode(2) [OF k(2) this] k(1) have "tpp = 3"
      by simp
    with k(3) not_pow2_3 show False
      by simp
  qed
  have "(128 :: u32) \<in> set ?lbs \<and> is_pow2 4 \<and> is_pow2 32 \<and> (32 :: u32) \<le> 32
      \<and> unat (4 :: u32) * unat (32 :: u32) dvd unat (128 :: u32)"
    using is_pow2_examples by simp
  then have in_qs: "128 * 1000000 + 4 * 100 + 32 \<in> set qs"
    unfolding qkeys [rule_format] by blast
  from ps in_ps out_ps qs in_qs show ?thesis by blast
qed

text \<open>
  Claim C5 as stated fails in its converse. A compiled module that reports the launch
  bound 0 gives an empty domain, although bound 0 with group size 1 and one evaluation
  thread meets every condition of the claim (1 divides 0). And at warp size 32, with the
  threads-per-particle list holding the powers of two up to 32, block size 32 with
  \<open>tpp = 64\<close> meets the conditions the claim states for the pair tuner, but its key is
  not in the domain.
\<close>

theorem candidate_domains_converse_fails:
  "jit_valid_params 32 [0] = Some (Inr [])
   \<and> is_pow2 1 \<and> (1 :: u32) \<le> 32 \<and> unat (1 :: u32) * unat (1 :: u32) dvd unat (0 :: u32)
   \<and> (case dpd_valid_params 32 [4, 8, 16, 32, 1, 2] of
         None \<Rightarrow> False
       | Some ps \<Rightarrow> 32 * 10000 + 64 \<notin> set ps)
   \<and> (32 :: u32) \<noteq> 0 \<and> unat (32 :: u32) dvd unat (32 :: u32) \<and> (32 :: u32) \<le> 1024
   \<and> is_pow2 64"
proof -
  have jit: "jit_valid_params 32 [0] = Some (Inr [])"
    unfolding jit_valid_params_def by (simp, subst gs_loop.simps, simp)
  obtain ps where ps: "dpd_valid_params 32 [4, 8, 16, 32, 1, 2] = Some ps"
    and pkeys: "\<forall>key. key \<in> set ps \<longleftrightarrow>
                  (\<exists>bs tpp. key = bs * 10000 + tpp \<and> bs \<noteq> 0
                      \<and> unat (32 :: u32) dvd unat bs \<and> bs \<le> 1024
                      \<and> tpp \<in> set [4, 8, 16, 32, 1, 2])"
    using dpd_valid_params_keys [of 32 "[4, 8, 16, 32, 1, 2]"] by auto
  have out_ps: "32 * 10000 + 64 \<notin> set ps"
  proof
    assume "32 * 10000 + 64 \<in> set ps"
    then obtain bs tpp where k: "(32 * 10000 + 64 :: u32) = bs * 10000 + tpp" "bs \<le> 1024"
        "tpp \<in> set [4, 8, 16, 32, 1, 2]"
      unfolding pkeys [rule_format] by blast
    have "tpp < 10000" using k(3) by auto
    from decode_encode(2) [OF k(2) this] k(1) have "tpp = 64"
      by simp
    with k(3) show False by simp
  qed
  show ?thesis
    using jit ps out_ps is_pow2_examples by simp
qed

lemma dpd_first_key:
  assumes "ws \<noteq> 0" "ws \<le> 1024" "dpd_valid_params ws (t # ts) = Some ps"
  shows "ps \<noteq> []" and "ps ! 0 = ws * 10000 + t"
proof -
  let ?w = "unat ws"
  let ?f = "\<lambda>i. map (\<lambda>s. word_of_nat (i * ?w) * 10000 + s) (t # ts)"
  have w0: "0 < ?w" using assms(1) by (simp add: unat_gt_0)
  have "?w \<le> 1024" using assms(2) by (simp add: word_le_nat_alt)
  then have "1 \<le> 1024 div ?w"
    using w0 by (simp add: less_eq_div_iff_mult_less_eq)
  then have idx: "[1 ..< Suc (1024 div ?w)] = 1 # [2 ..< Suc (1024 div ?w)]"
    by (subst upt_rec) (simp add: numeral_2_eq_2)
  have "ps = concat (map ?f [1 ..< Suc (1024 div ?w)])"
    using dpd_valid_params_closed [OF assms(1), of "t # ts"] assms(3) by simp
  then have ps: "ps = (ws * 10000 + t) # map (\<lambda>s. ws * 10000 + s) ts
      @ concat (map ?f [2 ..< Suc (1024 div ?w)])"
    unfolding idx by simp
  show "ps \<noteq> []" by (subst ps) simp
  show "ps ! 0 = ws * 10000 + t" by (subst ps) simp
qed

lemma dpd_new_object:
  assumes "PotentialPairDPDThermoGPU_new ec mode getTpp name dec = Some (Inr obj)"
  shows "m_storage_mode obj = mode" and "m_exec_conf obj = ec" and "m_param obj = 0"
    and "\<not> at_in_bracket (m_tuner obj)"
    and "getParam (m_tuner obj) = at_candidates (m_tuner obj) ! 0"
  using assms
  by (auto simp: PotentialPairDPDThermoGPU_new_def Autotuner_construct_def setSync_def Let_def
      getParam_def split: if_splits option.splits sum.splits)

text \<open>
  Claim C6. A \<^verbatim>\<open>PotentialPairDPDThermoGPU\<close> and a \<^verbatim>\<open>PatchEnergyJITUnionGPU\<close>
  that have been constructed hold a tuner with a required sample count of 5 and a rescan
  period of 100000 steps.
\<close>

theorem autotuners_use_5_samples_and_period_100000:
  "(PotentialPairDPDThermoGPU_new ec mode getTpp name dec = Some (Inr obj)
      \<longrightarrow> at_nsamples (m_tuner obj) = 5 \<and> at_period (m_tuner obj) = 100000)
   \<and> (PatchEnergyJITUnionGPU_new ec lbs types bt bp bo bd bc btree dtree = Some (Inr j)
      \<longrightarrow> at_nsamples (m_tuner_narrow_patch j) = 5
          \<and> at_period (m_tuner_narrow_patch j) = 100000)"
  using dpd_new_candidates(2,3) [of ec mode getTpp name dec obj]
    jit_new_candidates(2,3) [of ec lbs types bt bp bo bd bc btree dtree j]
  by blast

text \<open>
  Both constructors succeed on a device with warp size 32 (launch bounds 64 and 128 for
  the narrow phase), with these values.
\<close>

theorem autotuners_constructed_warp_32:
  "\<exists>obj j.
     PotentialPairDPDThermoGPU_new
       \<lparr> isCUDAEnabled = True, isCUDAErrorCheckingEnabled = False, warpSize = 32 \<rparr>
       full (\<lambda>ws. [4, 8, 16, 32, 1, 2]) ''DPD'' False = Some (Inr obj)
     \<and> at_nsamples (m_tuner obj) = 5 \<and> at_period (m_tuner obj) = 100000
     \<and> PatchEnergyJITUnionGPU_new
       \<lparr> isCUDAEnabled = True, isCUDAErrorCheckingEnabled = False, warpSize = 32 \<rparr>
       [64, 128] [''A''] no_constituents no_constituents no_constituents no_constituents
       no_constituents (\<lambda>_. ()) ()
         = Some (Inr j)
     \<and> at_nsamples (m_tuner_narrow_patch j) = 5
     \<and> at_period (m_tuner_narrow_patch j) = 100000"
proof -
  let ?ec = "\<lparr> isCUDAEnabled = True, isCUDAErrorCheckingEnabled = False, warpSize = 32 \<rparr>"
  obtain ps where ps: "dpd_valid_params 32 [4, 8, 16, 32, 1, 2] = Some ps"
    and in_ps: "64 * 10000 + 4 \<in> set ps"
    using dpd_params_warp_32 by blast
  obtain qs where qs: "jit_valid_params 32 [64, 128] = Some (Inr qs)"
    and in_qs: "128 * 1000000 + 4 * 100 + 32 \<in> set qs"
    using jit_params_warp_32 by blast
  obtain obj where obj: "PotentialPairDPDThermoGPU_new ?ec full (\<lambda>ws. [4, 8, 16, 32, 1, 2])
        ''DPD'' False = Some (Inr obj)"
    using dpd_new_succeeds [of ?ec "\<lambda>ws. [4, 8, 16, 32, 1, 2]" ps _ full "''DPD''" False]
      ps in_ps by auto
  obtain j where j: "PatchEnergyJITUnionGPU_new ?ec [64, 128] [''A'']
        no_constituents no_constituents no_constituents no_constituents no_constituents (\<lambda>_. ()) () = Some (Inr j)"
    using jit_new_succeeds [of ?ec "[64, 128]" qs _ "[''A'']"
        no_constituents no_constituents no_constituents no_constituents no_constituents "\<lambda>_. ()" "()"]
      qs in_qs by auto
  from autotuners_use_5_samples_and_period_100000
    [of ?ec full "\<lambda>ws. [4, 8, 16, 32, 1, 2]" "''DPD''" False obj "[64, 128]" "[''A'']"
      no_constituents no_constituents no_constituents no_constituents no_constituents "\<lambda>_. ()" "()" j] obj j
  show ?thesis by blast
qed

section \<open>Properties of computeForces\<close>

lemma getParam_begun: "getParam (t\<lparr> at_in_bracket := True \<rparr>) = getParam t"
  by (simp add: getParam_def split: tuner_state.splits)

lemma computeForces_calls:
  assumes "m_storage_mode s \<noteq> half"
    and "m_param s \<noteq> 0 \<or> \<not> at_in_bracket (m_tuner s)"
  shows "fst (snd (computeForces s timestep env)) =
           [NlistCompute timestep]
           @ (if m_param s = 0 then [TunerBegin, TunerGetParam] else [])
           @ [KernelLaunch ((if m_param s = 0 then getParam (m_tuner s) else m_param s) div 10000)
                ((if m_param s = 0 then getParam (m_tuner s) else m_param s) mod 10000)]
           @ (if isCUDAErrorCheckingEnabled (m_exec_conf s) then [CheckCudaError] else [])
           @ (if m_param s = 0
                 \<and> \<not> (isCUDAErrorCheckingEnabled (m_exec_conf s) \<and> device_error env)
              then [TunerEnd] else [])"
    and "fst (computeForces s timestep env) = Inl DeviceExecutionError
           \<longleftrightarrow> isCUDAErrorCheckingEnabled (m_exec_conf s) \<and> device_error env"
  using assms
  by (auto simp: computeForces_def tuner_begin_def tuner_end_def getParam_begun Let_def)


text \<open>
  Claim C1. With a half neighbour list \<^verbatim>\<open>computeForces\<close> throws its runtime
  error after the neighbour list update and the error message only: no
  \<^verbatim>\<open>begin()\<close> of the tuner has been called (the count of brackets opened is 0),
  no kernel has been launched, and the object, its tuner included, is unchanged.
\<close>

theorem half_neighbor_list_fails_fast:
  assumes "m_storage_mode s = half"
  shows "\<exists>calls. computeForces s timestep env =
           (Inl (RuntimeError ''Error computing forces in PotentialPairDPDThermoGPU''), calls, s)
         \<and> calls = [NlistCompute timestep,
                     MsgError ''PotentialPairDPDThermoGPU cannot handle a half neighborlist'']
         \<and> count_list calls TunerBegin = 0
         \<and> (\<forall>block_size tpp. KernelLaunch block_size tpp \<notin> set calls)"
  using assms by (simp add: computeForces_def)

text \<open>
  The call on an example object whose neighbour list is in half mode.
\<close>

theorem half_neighbor_list_example:
  "computeForces (example_dpd False half) 7 \<lparr> elapsed = 3, device_error = False \<rparr> =
     (Inl (RuntimeError ''Error computing forces in PotentialPairDPDThermoGPU''),
      [NlistCompute 7, MsgError ''PotentialPairDPDThermoGPU cannot handle a half neighborlist''],
      example_dpd False half)"
proof -
  have h: "m_storage_mode (example_dpd False half) = half"
    by (simp add: example_dpd_def)
  from half_neighbor_list_fails_fast [OF h, of 7 "\<lparr> elapsed = 3, device_error = False \<rparr>"]
  show ?thesis by auto
qed

text \<open>
  Claim C3, as amended. Take a call that passes the neighbour-list mode check and whose
  post-launch check raises no device error. If no tuning parameter is set
  (\<open>m_param = 0\<close>) and the tuner has no open bracket, the call is \<^verbatim>\<open>begin()\<close>,
  \<^verbatim>\<open>getParam()\<close>, one kernel launch with the decoded parameter, the error check if
  it is enabled, and \<^verbatim>\<open>end()\<close>: one begin/end pair around the single launch, and
  the bracket is closed afterwards. If a tuning parameter has been set
  (\<open>m_param \<noteq> 0\<close>), the call launches the kernel once with that parameter and calls
  neither \<^verbatim>\<open>begin()\<close>, \<^verbatim>\<open>getParam()\<close> nor \<^verbatim>\<open>end()\<close>; the object is
  unchanged.
\<close>

theorem computeForces_tuner_bracket:
  assumes "m_storage_mode s \<noteq> half"
    and "\<not> (isCUDAErrorCheckingEnabled (m_exec_conf s) \<and> device_error env)"
  shows "(m_param s = 0 \<and> \<not> at_in_bracket (m_tuner s) \<longrightarrow>
            (\<exists>t'. computeForces s timestep env =
                (Inr (),
                 [NlistCompute timestep, TunerBegin, TunerGetParam,
                  KernelLaunch (getParam (m_tuner s) div 10000) (getParam (m_tuner s) mod 10000)]
                 @ (if isCUDAErrorCheckingEnabled (m_exec_conf s) then [CheckCudaError] else [])
                 @ [TunerEnd],
                 s\<lparr> m_tuner := t' \<rparr>)
              \<and> tuner_end ((m_tuner s)\<lparr> at_in_bracket := True \<rparr>) (elapsed env) = Inr t'
              \<and> \<not> at_in_bracket t'))
       \<and> (m_param s \<noteq> 0 \<longrightarrow>
            computeForces s timestep env =
              (Inr (),
               [NlistCompute timestep,
                KernelLaunch (m_param s div 10000) (m_param s mod 10000)]
               @ (if isCUDAErrorCheckingEnabled (m_exec_conf s) then [CheckCudaError] else []),
               s))"
  using assms
  by (auto simp: computeForces_def tuner_begin_def tuner_end_def getParam_begun Let_def)

text \<open>
  Both cases on the example object with error checking enabled: the tuned call launches
  with block size 32 and 4 threads per particle and records the duration 3; after
  \<^verbatim>\<open>setTuningParam(640008)\<close> the call launches with block size 64 and 8 threads.
\<close>

theorem computeForces_bracket_example:
  "computeForces (example_dpd True full) 7 \<lparr> elapsed = 3, device_error = False \<rparr> =
     (Inr (),
      [NlistCompute 7, TunerBegin, TunerGetParam, KernelLaunch 32 4, CheckCudaError, TunerEnd],
      (example_dpd True full)
        \<lparr> m_tuner := scan_state [320004] 5 100000 ''pair_DPD'' False 0 [[3]] \<rparr>)
   \<and> computeForces (setTuningParam (example_dpd True full) 640008) 7
        \<lparr> elapsed = 3, device_error = False \<rparr> =
     (Inr (), [NlistCompute 7, KernelLaunch 64 8, CheckCudaError],
      setTuningParam (example_dpd True full) 640008)"
proof -
  let ?env = "\<lparr> elapsed = 3, device_error = False \<rparr>"
  let ?s = "example_dpd True full"
  let ?s' = "setTuningParam (example_dpd True full) 640008"
  have h1: "m_storage_mode ?s \<noteq> half" "m_storage_mode ?s' \<noteq> half"
    by (simp_all add: example_dpd_def setTuningParam_def)
  have h2: "\<not> (isCUDAErrorCheckingEnabled (m_exec_conf ?s) \<and> device_error ?env)"
    "\<not> (isCUDAErrorCheckingEnabled (m_exec_conf ?s') \<and> device_error ?env)"
    by simp_all
  have a: "m_param ?s = 0 \<and> \<not> at_in_bracket (m_tuner ?s)"
    by (simp add: example_dpd_def example_tuner_def scan_state_def)
  have b: "m_param ?s' \<noteq> 0"
    by (simp add: setTuningParam_def)
  have p: "getParam (m_tuner ?s) = 320004"
    by (simp add: example_dpd_def example_tuner_def scan_state_def getParam_def)
  from computeForces_tuner_bracket [OF h1(1) h2(1), of 7] a
  obtain t' where r: "computeForces ?s 7 ?env =
       (Inr (),
        [NlistCompute 7, TunerBegin, TunerGetParam,
         KernelLaunch (getParam (m_tuner ?s) div 10000) (getParam (m_tuner ?s) mod 10000)]
         @ (if isCUDAErrorCheckingEnabled (m_exec_conf ?s) then [CheckCudaError] else [])
         @ [TunerEnd],
        ?s\<lparr> m_tuner := t' \<rparr>)"
    and t': "tuner_end ((m_tuner ?s)\<lparr> at_in_bracket := True \<rparr>) (elapsed ?env) = Inr t'"
    by blast
  have "t' = scan_state [320004] 5 100000 ''pair_DPD'' False 0 [[3]]"
    using t' by (simp add: example_dpd_def example_tuner_def scan_state_def tuner_end_def
        record_sample_def Let_def)
  with r p have first: "computeForces ?s 7 ?env =
     (Inr (),
      [NlistCompute 7, TunerBegin, TunerGetParam, KernelLaunch 32 4, CheckCudaError, TunerEnd],
      ?s\<lparr> m_tuner := scan_state [320004] 5 100000 ''pair_DPD'' False 0 [[3]] \<rparr>)"
    by (simp add: example_dpd_def)
  from computeForces_tuner_bracket [OF h1(2) h2(2), of 7] b
  have second: "computeForces ?s' 7 ?env =
     (Inr (), [NlistCompute 7, KernelLaunch 64 8, CheckCudaError], ?s')"
    by (simp add: setTuningParam_def example_dpd_def)
  from first second show ?thesis by simp
qed

text \<open>
  Claim C3 as stated fails: after \<^verbatim>\<open>setTuningParam(640008)\<close> a call that passes the
  mode check consists of the neighbour list update and the kernel launch; the tuner is
  not asked for a parameter and no bracket is opened or closed.
\<close>

theorem computeForces_fixed_param_skips_tuner:
  "fst (snd (computeForces (setTuningParam (example_dpd False full) 640008) 7
        \<lparr> elapsed = 3, device_error = False \<rparr>))
     = [NlistCompute 7, KernelLaunch 64 8]"
  by (simp add: computeForces_def setTuningParam_def example_dpd_def)

text \<open>
  The call left out of the amended claim: with no tuning parameter set and error checking
  enabled, a launch that leaves a device error makes \<^verbatim>\<open>CHECK_CUDA_ERROR()\<close> throw
  between \<^verbatim>\<open>begin()\<close> and \<^verbatim>\<open>end()\<close>, and the tuner's bracket stays open.
\<close>

lemma check_throws_inside_bracket:
  assumes "m_storage_mode s \<noteq> half" "m_param s = 0" "\<not> at_in_bracket (m_tuner s)"
    and "isCUDAErrorCheckingEnabled (m_exec_conf s)" "device_error env"
  shows "fst (computeForces s timestep env) = Inl DeviceExecutionError"
    and "fst (snd (computeForces s timestep env)) =
           [NlistCompute timestep, TunerBegin, TunerGetParam,
            KernelLaunch (getParam (m_tuner s) div 10000) (getParam (m_tuner s) mod 10000),
            CheckCudaError]"
    and "at_in_bracket (m_tuner (snd (snd (computeForces s timestep env))))"
  using assms
  by (simp_all add: computeForces_def tuner_begin_def getParam_begun Let_def)




text \<open>
  Claim C9. Let the constructor's loop return the keys \<open>ps\<close>, with no \<open>tpp\<close> of the
  list above the warp size, and let a call of \<^verbatim>\<open>computeForces\<close> that reaches the
  launch take one of these keys as its parameter (from the tuner's \<^verbatim>\<open>getParam()\<close>,
  or from \<open>m_param\<close>). The key is \<open>block_size * 10000 + tpp\<close> for a block size the
  loop visits (a positive multiple of the warp size, at most 1024) and a \<open>tpp\<close> of the
  list, and for every such pair that encodes to the key the kernel is launched with
  exactly that block size and that \<open>tpp\<close>: the decoding in \<^verbatim>\<open>computeForces\<close> is a
  left inverse of the encoding, in 32-bit arithmetic. (A key exists only for a warp size
  of at most 1024, so the claim's bound of 10000 on the warp size is not needed, nor that
  \<open>tpp\<close> is a power of two.)
\<close>

theorem dpd_decode_left_inverse:
  assumes "dpd_valid_params ws tpps = Some ps"
    and "\<forall>s \<in> set tpps. s \<le> ws"
    and "m_storage_mode s \<noteq> half"
    and "m_param s \<noteq> 0 \<or> \<not> at_in_bracket (m_tuner s)"
    and "key \<in> set ps"
    and "(if m_param s = 0 then getParam (m_tuner s) else m_param s) = key"
  shows "(\<exists>bs tpp. key = bs * 10000 + tpp \<and> bs \<noteq> 0 \<and> unat ws dvd unat bs \<and> bs \<le> 1024
              \<and> tpp \<in> set tpps)
       \<and> (\<forall>bs tpp. key = bs * 10000 + tpp \<and> bs \<noteq> 0 \<and> unat ws dvd unat bs \<and> bs \<le> 1024
              \<and> tpp \<in> set tpps \<longrightarrow>
            fst (snd (computeForces s timestep env)) =
              [NlistCompute timestep]
              @ (if m_param s = 0 then [TunerBegin, TunerGetParam] else [])
              @ [KernelLaunch bs tpp]
              @ (if isCUDAErrorCheckingEnabled (m_exec_conf s) then [CheckCudaError] else [])
              @ (if m_param s = 0
                    \<and> \<not> (isCUDAErrorCheckingEnabled (m_exec_conf s) \<and> device_error env)
                 then [TunerEnd] else []))"
proof -
  have ws: "ws \<noteq> 0"
    using assms(1) dpd_valid_params_zero_warp [of tpps] by auto
  from dpd_valid_params_keys [OF ws, of tpps] assms(1)
  have keys: "\<forall>k. k \<in> set ps \<longleftrightarrow>
              (\<exists>bs tpp. k = bs * 10000 + tpp \<and> bs \<noteq> 0 \<and> unat ws dvd unat bs
                    \<and> bs \<le> 1024 \<and> tpp \<in> set tpps)"
    by simp
  have ex: "\<exists>bs tpp. key = bs * 10000 + tpp \<and> bs \<noteq> 0 \<and> unat ws dvd unat bs \<and> bs \<le> 1024
              \<and> tpp \<in> set tpps"
    using keys assms(5) by blast
  have calls: "fst (snd (computeForces s timestep env)) =
              [NlistCompute timestep]
              @ (if m_param s = 0 then [TunerBegin, TunerGetParam] else [])
              @ [KernelLaunch (key div 10000) (key mod 10000)]
              @ (if isCUDAErrorCheckingEnabled (m_exec_conf s) then [CheckCudaError] else [])
              @ (if m_param s = 0
                    \<and> \<not> (isCUDAErrorCheckingEnabled (m_exec_conf s) \<and> device_error env)
                 then [TunerEnd] else [])"
    using computeForces_calls(1) [OF assms(3,4), of timestep env] unfolding assms(6) .
  have dec: "key div 10000 = bs \<and> key mod 10000 = tpp"
    if k: "key = bs * 10000 + tpp" "bs \<noteq> 0" "unat ws dvd unat bs" "bs \<le> 1024"
      "tpp \<in> set tpps" for bs tpp
  proof -
    have "0 < unat bs" using k(2) by (simp add: unat_gt_0)
    with k(3) have "unat ws \<le> unat bs" by (rule dvd_imp_le)
    moreover have "unat bs \<le> 1024" using k(4) by (simp add: word_le_nat_alt)
    moreover have "unat tpp \<le> unat ws" using assms(2) k(5) by (simp add: word_le_nat_alt)
    ultimately have "unat tpp < 10000" by simp
    then have t: "tpp < 10000" by (simp add: word_less_nat_alt)
    show ?thesis
      unfolding k(1) using decode_encode [OF k(4) t] by simp
  qed
  show ?thesis
  proof (intro conjI allI impI)
    show "\<exists>bs tpp. key = bs * 10000 + tpp \<and> bs \<noteq> 0 \<and> unat ws dvd unat bs \<and> bs \<le> 1024
              \<and> tpp \<in> set tpps"
      by (rule ex)
  next
    fix bs tpp
    assume k: "key = bs * 10000 + tpp \<and> bs \<noteq> 0 \<and> unat ws dvd unat bs \<and> bs \<le> 1024
              \<and> tpp \<in> set tpps"
    then have "key div 10000 = bs \<and> key mod 10000 = tpp"
      using dec by blast
    then show "fst (snd (computeForces s timestep env)) =
              [NlistCompute timestep]
              @ (if m_param s = 0 then [TunerBegin, TunerGetParam] else [])
              @ [KernelLaunch bs tpp]
              @ (if isCUDAErrorCheckingEnabled (m_exec_conf s) then [CheckCudaError] else [])
              @ (if m_param s = 0
                    \<and> \<not> (isCUDAErrorCheckingEnabled (m_exec_conf s) \<and> device_error env)
                 then [TunerEnd] else [])"
      using calls by simp
  qed
qed

text \<open>
  The object the constructor returns at warp size 32: its tuner first hands out the key
  320004 and the kernel is launched with block size 32 and 4 threads per particle; after
  \<^verbatim>\<open>setTuningParam(640008)\<close>, another key of the list, it is launched with block size
  64 and 8 threads.
\<close>

theorem dpd_decode_warp_32:
  "case PotentialPairDPDThermoGPU_new
          \<lparr> isCUDAEnabled = True, isCUDAErrorCheckingEnabled = False, warpSize = 32 \<rparr>
          full (\<lambda>ws. [4, 8, 16, 32, 1, 2]) ''DPD'' False of
     None \<Rightarrow> False
   | Some (Inl e) \<Rightarrow> False
   | Some (Inr obj) \<Rightarrow>
       getParam (m_tuner obj) = 320004
       \<and> fst (snd (computeForces obj 7 \<lparr> elapsed = 3, device_error = False \<rparr>))
           = [NlistCompute 7, TunerBegin, TunerGetParam, KernelLaunch 32 4, TunerEnd]
       \<and> fst (snd (computeForces (setTuningParam obj 640008) 7
             \<lparr> elapsed = 3, device_error = False \<rparr>))
           = [NlistCompute 7, KernelLaunch 64 8]"
proof -
  let ?ec = "\<lparr> isCUDAEnabled = True, isCUDAErrorCheckingEnabled = False, warpSize = 32 \<rparr>"
  let ?tpps = "[4, 8, 16, 32, 1, 2] :: u32 list"
  let ?env = "\<lparr> elapsed = 3, device_error = False \<rparr>"
  obtain ps where ps: "dpd_valid_params 32 ?tpps = Some ps"
    and in_ps: "64 * 10000 + 4 \<in> set ps"
    using dpd_params_warp_32 by blast
  obtain obj where obj: "PotentialPairDPDThermoGPU_new ?ec full (\<lambda>ws. ?tpps) ''DPD'' False
      = Some (Inr obj)"
    using dpd_new_succeeds [of ?ec "\<lambda>ws. ?tpps" ps _ full "''DPD''" False] ps in_ps by auto
  note o = dpd_new_object [OF obj]
  have cand: "at_candidates (m_tuner obj) = ps"
    using dpd_new_candidates(1) [OF obj] ps by simp
  have first: "ps ! 0 = 32 * 10000 + 4" and ne: "ps \<noteq> []"
    using dpd_first_key [of 32 4 "[8, 16, 32, 1, 2]" ps] ps by simp_all
  have le: "\<forall>s \<in> set ?tpps. s \<le> 32" by simp
  have mode: "m_storage_mode obj \<noteq> half" "m_storage_mode (setTuningParam obj 640008) \<noteq> half"
    using o(1) by (simp_all add: setTuningParam_def)
  have br: "m_param obj \<noteq> 0 \<or> \<not> at_in_bracket (m_tuner obj)"
    "m_param (setTuningParam obj 640008) \<noteq> 0
      \<or> \<not> at_in_bracket (m_tuner (setTuningParam obj 640008))"
    using o(4) by (simp_all add: setTuningParam_def)
  have k1: "32 * 10000 + 4 \<in> set ps"
    using first ne by (metis nth_mem length_greater_0_conv)
  have p1: "(if m_param obj = 0 then getParam (m_tuner obj) else m_param obj) = 32 * 10000 + 4"
    using o(3,5) cand first by simp
  have pair1: "(32 * 10000 + 4 :: u32) = 32 * 10000 + 4 \<and> (32 :: u32) \<noteq> 0
      \<and> unat (32 :: u32) dvd unat (32 :: u32) \<and> (32 :: u32) \<le> 1024 \<and> (4 :: u32) \<in> set ?tpps"
    by simp
  have c1: "fst (snd (computeForces obj 7 ?env))
      = [NlistCompute 7, TunerBegin, TunerGetParam, KernelLaunch 32 4, TunerEnd]"
    using dpd_decode_left_inverse [OF ps le mode(1) br(1) k1 p1, of 7 ?env,
        THEN conjunct2, rule_format, OF pair1] o(2,3)
    by simp
  have k2: "64 * 10000 + 8 \<in> set ps"
  proof -
    obtain qs where "dpd_valid_params 32 ?tpps = Some qs"
      and qkeys: "\<forall>key. key \<in> set qs \<longleftrightarrow>
                  (\<exists>bs tpp. key = bs * 10000 + tpp \<and> bs \<noteq> 0
                      \<and> unat (32 :: u32) dvd unat bs \<and> bs \<le> 1024 \<and> tpp \<in> set ?tpps)"
      using dpd_valid_params_keys [of 32 ?tpps] by auto
    with ps have q: "qs = ps" by simp
    have "(64 :: u32) \<noteq> 0 \<and> unat (32 :: u32) dvd unat (64 :: u32) \<and> (64 :: u32) \<le> 1024
        \<and> (8 :: u32) \<in> set ?tpps"
      by simp
    then have "64 * 10000 + 8 \<in> set qs"
      unfolding qkeys [rule_format] by blast
    then show ?thesis unfolding q .
  qed
  have p2': "(if m_param (setTuningParam obj 640008) = 0
      then getParam (m_tuner (setTuningParam obj 640008))
      else m_param (setTuningParam obj 640008)) = 64 * 10000 + 8"
    by (simp add: setTuningParam_def)
  have pair2: "(64 * 10000 + 8 :: u32) = 64 * 10000 + 8 \<and> (64 :: u32) \<noteq> 0
      \<and> unat (32 :: u32) dvd unat (64 :: u32) \<and> (64 :: u32) \<le> 1024 \<and> (8 :: u32) \<in> set ?tpps"
    by simp
  have c2: "fst (snd (computeForces (setTuningParam obj 640008) 7 ?env))
      = [NlistCompute 7, KernelLaunch 64 8]"
    using dpd_decode_left_inverse [OF ps le mode(2) br(2) k2 p2', of 7 ?env,
        THEN conjunct2, rule_format, OF pair2] o(2)
    by (simp add: setTuningParam_def)
  have "getParam (m_tuner obj) = 320004"
    using o(5) cand first by simp
  with obj c1 c2 show ?thesis by simp
qed

section \<open>Properties of the setters\<close>

lemma getTypeByName_Some:
  "type_index types name = Some tid \<Longrightarrow> getTypeByName types name = Inr tid"
  by (simp add: getTypeByName_def)

text \<open>
  Claim C8. For a registered type, each of the five setters assigns the whole new list
  to its field of the type's parameter block and calls \<^verbatim>\<open>set_memory_hint()\<close> on the
  block right after the assignment; the field then holds exactly the new data.
  (\<^verbatim>\<open>setPositions\<close> goes on to rebuild the tree, the operations \<open>ops\<close>.)
\<close>

theorem setters_replace_block_field_and_hint:
  assumes "type_index (type_mapping s) type = Some tid"
  shows "(\<exists>s'. setTypeids s type typeids = Inr ([Assign tid F_mtype, SetMemoryHint tid], s')
              \<and> mtype (m_d_union_params s' tid) = typeids)
       \<and> (\<exists>ops s'. setPositions build s type position
                = Inr (Assign tid F_mpos # SetMemoryHint tid # ops, s')
              \<and> mpos (m_d_union_params s' tid) = position)
       \<and> (\<exists>s'. setOrientations s type orientation
                = Inr ([Assign tid F_morientation, SetMemoryHint tid], s')
              \<and> morientation (m_d_union_params s' tid) = orientation)
       \<and> (\<exists>s'. setDiameters s type diameter
                = Inr ([Assign tid F_mdiameter, SetMemoryHint tid], s')
              \<and> mdiameter (m_d_union_params s' tid) = diameter)
       \<and> (\<exists>s'. setCharges s type charge
                = Inr ([Assign tid F_mcharge, SetMemoryHint tid], s')
              \<and> mcharge (m_d_union_params s' tid) = charge)"
  using getTypeByName_Some [OF assms]
  by (simp add: setTypeids_def setPositions_def setOrientations_def setDiameters_def
      setCharges_def buildOBBTree_def Let_def)

text \<open>
  \<^verbatim>\<open>setCharges\<close> and \<^verbatim>\<open>setTypeids\<close> on the example object.
\<close>

theorem setters_example:
  "(case setCharges example_jit ''A'' [1065353216, 3212836864] of
      Inl e \<Rightarrow> False
    | Inr (ops, s') \<Rightarrow> ops = [Assign 0 F_mcharge, SetMemoryHint 0]
        \<and> mcharge (m_d_union_params s' 0) = [1065353216, 3212836864])
   \<and> (case setTypeids example_jit ''A'' [0, 0] of
      Inl e \<Rightarrow> False
    | Inr (ops, s') \<Rightarrow> ops = [Assign 0 F_mtype, SetMemoryHint 0]
        \<and> mtype (m_d_union_params s' 0) = [0, 0])"
proof -
  have h: "type_index (type_mapping example_jit) ''A'' = Some 0"
    by (simp add: example_jit_def)
  note t = setters_replace_block_field_and_hint [OF h, where build = example_build
      and position = "[]" and orientation = "[]" and diameter = "[]"
      and charge = "[1065353216, 3212836864]" and typeids = "[0, 0]"]
  from t [THEN conjunct1] t [THEN conjunct2, THEN conjunct2, THEN conjunct2, THEN conjunct2]
  show ?thesis by auto
qed

text \<open>
  Claim C2, as amended. For a registered type, \<^verbatim>\<open>setPositions\<close> calls the base
  class's \<^verbatim>\<open>buildOBBTree\<close> for the type: afterwards the stored tree is the one built
  from the constituent data now stored for the type, and the parameter block holds that
  tree. \<^verbatim>\<open>setTypeids\<close>, \<^verbatim>\<open>setOrientations\<close>, \<^verbatim>\<open>setDiameters\<close> and
  \<^verbatim>\<open>setCharges\<close> trigger no rebuild: the stored tree and the tree of the parameter
  block are the ones from before the call.
\<close>

theorem only_setPositions_rebuilds_tree:
  assumes "type_index (type_mapping s) type = Some tid"
  shows "(\<exists>ops s'. setPositions build s type position = Inr (ops, s')
              \<and> BaseBuildOBBTree tid \<in> set ops
              \<and> m_position s' tid = position
              \<and> m_tree s' tid = build (m_type s' tid) (m_position s' tid)
                    (m_orientation s' tid) (m_diameter s' tid) (m_charge s' tid)
              \<and> tree (m_d_union_params s' tid) = m_tree s' tid)
       \<and> (\<exists>ops s'. setTypeids s type typeids = Inr (ops, s')
              \<and> (\<forall>t. BaseBuildOBBTree t \<notin> set ops) \<and> m_tree s' = m_tree s
              \<and> tree (m_d_union_params s' tid) = tree (m_d_union_params s tid))
       \<and> (\<exists>ops s'. setOrientations s type orientation = Inr (ops, s')
              \<and> (\<forall>t. BaseBuildOBBTree t \<notin> set ops) \<and> m_tree s' = m_tree s
              \<and> tree (m_d_union_params s' tid) = tree (m_d_union_params s tid))
       \<and> (\<exists>ops s'. setDiameters s type diameter = Inr (ops, s')
              \<and> (\<forall>t. BaseBuildOBBTree t \<notin> set ops) \<and> m_tree s' = m_tree s
              \<and> tree (m_d_union_params s' tid) = tree (m_d_union_params s tid))
       \<and> (\<exists>ops s'. setCharges s type charge = Inr (ops, s')
              \<and> (\<forall>t. BaseBuildOBBTree t \<notin> set ops) \<and> m_tree s' = m_tree s
              \<and> tree (m_d_union_params s' tid) = tree (m_d_union_params s tid))"
  using getTypeByName_Some [OF assms]
  by (simp add: setTypeids_def setPositions_def setOrientations_def setDiameters_def
      setCharges_def buildOBBTree_def Let_def)

text \<open>
  \<^verbatim>\<open>setPositions\<close> with two points on the example object: the tree is rebuilt over
  the two points.
\<close>

theorem setPositions_rebuild_example:
  "(case setPositions example_build example_jit ''A'' [(0, 0, 0), (1065353216, 0, 0)] of
      Inl e \<Rightarrow> False
    | Inr (ops, s') \<Rightarrow> BaseBuildOBBTree 0 \<in> set ops
        \<and> m_tree s' 0 = [(0, 0, 0), (1065353216, 0, 0)]
        \<and> tree (m_d_union_params s' 0) = [(0, 0, 0), (1065353216, 0, 0)])"
proof -
  have h: "type_index (type_mapping example_jit) ''A'' = Some 0"
    by (simp add: example_jit_def)
  note t = only_setPositions_rebuilds_tree [OF h, where build = example_build
      and position = "[(0, 0, 0), (1065353216, 0, 0)]" and orientation = "[]"
      and diameter = "[]" and charge = "[]" and typeids = "[]"]
  from t [THEN conjunct1]
  show ?thesis by (auto simp: example_build_def)
qed

text \<open>
  Claim C2 as stated fails: \<^verbatim>\<open>setOrientations\<close> and \<^verbatim>\<open>setDiameters\<close> assign
  their field and set the memory hint, and that is all; no rebuild is triggered and the
  tree is the one from before the call.
\<close>

theorem setOrientations_triggers_no_rebuild:
  "(case setOrientations example_jit ''A'' [(1065353216, (0, 0, 0))] of
      Inl e \<Rightarrow> False
    | Inr (ops, s') \<Rightarrow> ops = [Assign 0 F_morientation, SetMemoryHint 0]
        \<and> BaseBuildOBBTree 0 \<notin> set ops \<and> m_tree s' 0 = m_tree example_jit 0)
   \<and> (case setDiameters example_jit ''A'' [1065353216] of
      Inl e \<Rightarrow> False
    | Inr (ops, s') \<Rightarrow> ops = [Assign 0 F_mdiameter, SetMemoryHint 0]
        \<and> BaseBuildOBBTree 0 \<notin> set ops \<and> m_tree s' 0 = m_tree example_jit 0)"
  by (simp add: setOrientations_def setDiameters_def getTypeByName_def example_jit_def Let_def)

end
